theory Spec2Isabelle
  imports Complex_Main "HOL-Library.AList"
begin

section \<open>The tween engine of \<^verbatim>\<open>src/tweenable.js\<close>\<close>

text \<open>
  A shallow embedding of the module. Conventions:
  \<^item> a JavaScript number is a \<open>number\<close>: \<^verbatim>\<open>NaN\<close> or a binary64 value, with every
    operation rounded to nearest, ties to even (section \<open>Numbers\<close>);
  \<^item> a state object is an association list of its own properties in insertion order
    (\<^verbatim>\<open>for (key in obj)\<close> walks it from left to right);
  \<^item> a call that throws \<^verbatim>\<open>TypeError\<close> (calling \<^verbatim>\<open>undefined\<close>) ends in the
    failure \<open>TypeError\<close>, paired with the world as it is when the exception leaves the call:
    what the call has written before it throws stays written;
  \<^item> \<^verbatim>\<open>Tweenable\<close> instances live in a store indexed by natural numbers; \<^verbatim>\<open>this\<close> is
    an index; the module-level \<^verbatim>\<open>tweenQueue\<close>, \<^verbatim>\<open>Tweenable.filters\<close> and
    \<^verbatim>\<open>formulas\<close> are fields of the \<open>world\<close>;
  \<^item> \<^verbatim>\<open>Tweenable.now()\<close> is a parameter of every operation that reads the clock; one
    public call reads one clock value;
  \<^item> each call of the caller's \<^verbatim>\<open>start\<close> and \<^verbatim>\<open>step\<close> callbacks and of the promise's
    \<^verbatim>\<open>resolve\<close>/\<^verbatim>\<open>reject\<close> is appended to the \<open>trace\<close> with its arguments; what the
    \<^verbatim>\<open>step\<close> callbacks then do to the world is an argument of \<open>processTweenWith\<close>, and
    \<open>processTween\<close> is the case of callbacks that only look;
  \<^item> a filter hook is a function that rewrites the four objects of \<^verbatim>\<open>_filterArgs\<close>
    (the hooks mutate them in place).
  Property names are taken to be different from the members of \<^verbatim>\<open>Object.prototype\<close>.
  The scheduling fields (\<^verbatim>\<open>_scheduleId\<close>, \<^verbatim>\<open>_scheduleFunction\<close>), \<^verbatim>\<open>set\<close> and
  \<^verbatim>\<open>dispose\<close> are not part of the model.
\<close>

subsection \<open>Numbers\<close>

text \<open>
  A finite binary64 value is a real \<open>m * 2 ^ e\<close> with \<open>\<bar>m\<bar> \<le> 2 ^ 53\<close> and \<open>- 1074 \<le> e\<close>.
  \<open>rnd x\<close> is the value nearest to \<open>x\<close>, the one with an even \<open>m\<close> when two are equally
  near: \<open>expo x\<close> is the exponent of the last place of \<open>x\<close> (52 binary places below its
  leading digit, and never below the subnormal exponent -1074), and \<open>x\<close> is rounded to a
  multiple of \<open>2 ^ expo x\<close>. Two things of binary64 are left out: the exponent has no
  upper bound here, so that no operation overflows to an infinity, and the two zeros are
  one value (they are \<^verbatim>\<open>===\<close> in JavaScript).
\<close>

definition pow2 :: "int \<Rightarrow> real" where
  "pow2 e = (if 0 \<le> e then 2 ^ nat e else inverse (2 ^ nat (- e)))"

definition expo :: "real \<Rightarrow> int" where
  "expo x = max (\<lfloor>log 2 \<bar>x\<bar>\<rfloor> - 52) (- 1074)"

definition roundEven :: "real \<Rightarrow> int" where
  "roundEven q =
     (let n = \<lfloor>q\<rfloor>; r = q - of_int n
      in if r < 1 / 2 then n else if 1 / 2 < r then n + 1 else if even n then n else n + 1)"

definition rnd :: "real \<Rightarrow> real" where
  "rnd x = (if x = 0 then 0 else of_int (roundEven (x / pow2 (expo x))) * pow2 (expo x))"

text \<open>The reals that are binary64 values: those that rounding leaves as they are.\<close>

definition isDouble :: "real \<Rightarrow> bool" where
  "isDouble x = (rnd x = x)"

typedef double = "range rnd"
  morphisms realOf Abs_double
  by blast

setup_lifting type_definition_double

text \<open>The value nearest to a real: what a decimal literal of the source denotes.\<close>

lift_definition Dbl :: "real \<Rightarrow> double" is rnd
  by (rule rangeI)

instantiation double :: "{zero, one, plus, minus, times, inverse, linorder}"
begin

lift_definition zero_double :: double is "rnd 0"
  by (rule rangeI)

lift_definition one_double :: double is "rnd 1"
  by (rule rangeI)

lift_definition plus_double :: "double \<Rightarrow> double \<Rightarrow> double" is "\<lambda>x y. rnd (x + y)"
  by (rule rangeI)

lift_definition minus_double :: "double \<Rightarrow> double \<Rightarrow> double" is "\<lambda>x y. rnd (x - y)"
  by (rule rangeI)

lift_definition times_double :: "double \<Rightarrow> double \<Rightarrow> double" is "\<lambda>x y. rnd (x * y)"
  by (rule rangeI)

lift_definition divide_double :: "double \<Rightarrow> double \<Rightarrow> double" is "\<lambda>x y. rnd (x / y)"
  by (rule rangeI)

lift_definition inverse_double :: "double \<Rightarrow> double" is "\<lambda>x. rnd (1 / x)"
  by (rule rangeI)

lift_definition less_eq_double :: "double \<Rightarrow> double \<Rightarrow> bool" is "\<lambda>x y. x \<le> y" .

lift_definition less_double :: "double \<Rightarrow> double \<Rightarrow> bool" is "\<lambda>x y. x < y" .

instance
  by standard (transfer; auto)+

end

text \<open>
  A JavaScript number. Every operation with a \<^verbatim>\<open>NaN\<close> operand gives \<^verbatim>\<open>NaN\<close>, every
  comparison with one is false, and so is \<^verbatim>\<open>0 / 0\<close>. A quotient by zero of another
  value is an infinity in JavaScript, which is not represented: it is \<open>NaN\<close> here.
  \<open>toNumber\<close> is the conversion of a property that may be \<^verbatim>\<open>undefined\<close> (\<open>None\<close>).
\<close>

datatype number = NaN | Num double

fun toNumber :: "number option \<Rightarrow> number" where
  "toNumber None = NaN"
| "toNumber (Some x) = x"

instantiation number :: "{zero, one, plus, minus, times, inverse, ord}"
begin

definition zero_number :: number where
  "zero_number = Num 0"

definition one_number :: number where
  "one_number = Num 1"

fun plus_number :: "number \<Rightarrow> number \<Rightarrow> number" where
  "plus_number (Num a) (Num b) = Num (a + b)"
| "plus_number x y = NaN"

fun minus_number :: "number \<Rightarrow> number \<Rightarrow> number" where
  "minus_number (Num a) (Num b) = Num (a - b)"
| "minus_number x y = NaN"

fun times_number :: "number \<Rightarrow> number \<Rightarrow> number" where
  "times_number (Num a) (Num b) = Num (a * b)"
| "times_number x y = NaN"

fun divide_number :: "number \<Rightarrow> number \<Rightarrow> number" where
  "divide_number (Num a) (Num b) = (if b = 0 then NaN else Num (a / b))"
| "divide_number x y = NaN"

definition inverse_number :: "number \<Rightarrow> number" where
  "inverse_number x = (case x of NaN \<Rightarrow> NaN | Num b \<Rightarrow> if b = 0 then NaN else Num (inverse b))"

fun less_eq_number :: "number \<Rightarrow> number \<Rightarrow> bool" where
  "less_eq_number (Num a) (Num b) = (a \<le> b)"
| "less_eq_number x y = False"

fun less_number :: "number \<Rightarrow> number \<Rightarrow> bool" where
  "less_number (Num a) (Num b) = (a < b)"
| "less_number x y = False"

instance ..

end

text \<open>A numeric literal of the source.\<close>

definition lit :: "real \<Rightarrow> number" where
  "lit x = Num (Dbl x)"

text \<open>\<^verbatim>\<open>Math.min\<close> and \<^verbatim>\<open>Math.max\<close>: \<^verbatim>\<open>NaN\<close> when an argument is.\<close>

definition jsMin :: "number \<Rightarrow> number \<Rightarrow> number" where
  "jsMin a b = (if a = NaN \<or> b = NaN then NaN else min a b)"

definition jsMax :: "number \<Rightarrow> number \<Rightarrow> number" where
  "jsMax a b = (if a = NaN \<or> b = NaN then NaN else max a b)"

subsection \<open>Data\<close>

type_synonym state = "(string \<times> number) list"

datatype easingValue = Named string | Func "number \<Rightarrow> number"

type_synonym easingObject = "(string \<times> easingValue) list"

datatype easingSpec = Single easingValue | PerProp easingObject

datatype failure = TypeError

definition DEFAULT_EASING :: string where
  "DEFAULT_EASING = ''linear''"

definition DEFAULT_DURATION :: number where
  "DEFAULT_DURATION = lit 500"

subsection \<open>Interpolation\<close>

definition tweenProp :: "number \<Rightarrow> number \<Rightarrow> (number \<Rightarrow> number) \<Rightarrow> number \<Rightarrow> number" where
  "tweenProp start end' easingFunc position = start + (end' - start) * easingFunc position"

text \<open>\<^verbatim>\<open>forPosition < timestamp ? 0 : (forPosition - timestamp) / duration\<close>.\<close>

definition normalizedPosition :: "number \<Rightarrow> number \<Rightarrow> number \<Rightarrow> number" where
  "normalizedPosition forPosition timestamp duration =
     (if forPosition < timestamp then 0 else (forPosition - timestamp) / duration)"

text \<open>
  \<^verbatim>\<open>typeof easingObjectProp === 'function' ? easingObjectProp : formulas[easingObjectProp]\<close>;
  \<open>None\<close> is \<^verbatim>\<open>undefined\<close>.
\<close>

fun easingFn ::
  "(string \<times> (number \<Rightarrow> number)) list \<Rightarrow> easingValue option \<Rightarrow> (number \<Rightarrow> number) option" where
  "easingFn formulas (Some (Func f)) = Some f"
| "easingFn formulas (Some (Named n)) = map_of formulas n"
| "easingFn formulas None = None"

text \<open>
  One round of the loop of \<^verbatim>\<open>tweenProps\<close>: the new value of \<^verbatim>\<open>currentState[key]\<close>.
  Calling a missing easing function throws; a missing start or end value is
  \<^verbatim>\<open>undefined\<close>, which the arithmetic converts to \<^verbatim>\<open>NaN\<close>.
\<close>

definition tweenKey ::
  "(string \<times> (number \<Rightarrow> number)) list \<Rightarrow> state \<Rightarrow> state \<Rightarrow> easingObject \<Rightarrow> number
     \<Rightarrow> string \<Rightarrow> failure + number" where
  "tweenKey formulas originalState targetState easing position key =
     (case easingFn formulas (map_of easing key) of
        None \<Rightarrow> Inl TypeError
      | Some f \<Rightarrow>
          Inr (tweenProp (toNumber (map_of originalState key))
                 (toNumber (map_of targetState key)) f position))"

text \<open>
  The loop writes \<^verbatim>\<open>currentState[key]\<close> key after key: when a round fails, the keys
  before it hold their new values and the others their old ones.
\<close>

fun tweenLoop ::
  "(string \<Rightarrow> failure + number) \<Rightarrow> state \<Rightarrow> (failure \<times> state) + state" where
  "tweenLoop g [] = Inr []"
| "tweenLoop g ((key, v) # rest) =
     (case g key of
        Inl e \<Rightarrow> Inl (e, (key, v) # rest)
      | Inr v' \<Rightarrow>
          (case tweenLoop g rest of
             Inl (e, rest') \<Rightarrow> Inl (e, (key, v') # rest')
           | Inr rest' \<Rightarrow> Inr ((key, v') # rest')))"

definition tweenProps ::
  "(string \<times> (number \<Rightarrow> number)) list \<Rightarrow> number \<Rightarrow> state \<Rightarrow> state \<Rightarrow> state \<Rightarrow> number
     \<Rightarrow> number \<Rightarrow> easingObject \<Rightarrow> (failure \<times> state) + state" where
  "tweenProps formulas forPosition currentState originalState targetState duration timestamp easing =
     tweenLoop
       (tweenKey formulas originalState targetState easing
          (normalizedPosition forPosition timestamp duration))
       currentState"

subsection \<open>Easing composition\<close>

text \<open>
  \<^verbatim>\<open>a || b\<close> takes \<open>b\<close> when \<open>a\<close> is falsy: \<^verbatim>\<open>undefined\<close> and the empty string are
  falsy, a function and a non-empty string are not.
\<close>

fun truthy :: "easingValue option \<Rightarrow> bool" where
  "truthy None = False"
| "truthy (Some (Named n)) = (n \<noteq> [])"
| "truthy (Some (Func f)) = True"

definition orDefault :: "easingValue option \<Rightarrow> easingValue" where
  "orDefault e = (if truthy e then the e else Named DEFAULT_EASING)"

text \<open>
  The parameter default \<^verbatim>\<open>easing = DEFAULT_EASING\<close> applies to \<^verbatim>\<open>undefined\<close>
  (\<open>None\<close>). In the object branch \<^verbatim>\<open>composedEasing[prop]\<close> is read before it is
  written, on a fresh object, once per property: it is \<^verbatim>\<open>undefined\<close>.
\<close>

definition composeEasingObject :: "state \<Rightarrow> easingSpec option \<Rightarrow> easingObject" where
  "composeEasingObject fromTweenParams easing =
     (case (case easing of None \<Rightarrow> Single (Named DEFAULT_EASING) | Some e \<Rightarrow> e) of
        Single e \<Rightarrow> map (\<lambda>(prop, v). (prop, e)) fromTweenParams
      | PerProp obj \<Rightarrow>
          map (\<lambda>(prop, v). (prop, orDefault (map_of obj prop))) fromTweenParams)"

subsection \<open>Instances, filters and the world\<close>

text \<open>
  An attachment is an opaque value of the caller; \<open>None\<close> is \<^verbatim>\<open>undefined\<close>.
\<close>

type_synonym attachment = "nat option"

text \<open>
  The fields of a \<^verbatim>\<open>Tweenable\<close>, without their leading underscore. \<open>timestamp = None\<close>
  is \<^verbatim>\<open>undefined\<close>; \<open>pausedAtTime = None\<close> is \<^verbatim>\<open>null\<close>;
  \<open>promise = None\<close> is \<^verbatim>\<open>undefined\<close> (\<^verbatim>\<open>_resolve\<close> and \<^verbatim>\<open>_reject\<close> are
  then undefined too); a promise is the number of its creation. A flag that is
  \<^verbatim>\<open>undefined\<close> is \<open>False\<close>.
\<close>

record tweenable =
  currentState :: state
  configured :: bool
  attachment :: attachment
  pausedAtTime :: "number option"
  delay :: number
  duration :: number
  originalState :: state
  targetState :: state
  easing :: easingObject
  promise :: "nat option"
  timestamp :: "number option"
  isPaused :: bool
  isTweening :: bool

text \<open>
  The argument of \<^verbatim>\<open>setConfig\<close>; \<open>None\<close> is a property left \<^verbatim>\<open>undefined\<close>. The
  callbacks \<^verbatim>\<open>start\<close> and \<^verbatim>\<open>step\<close> and the promise constructor are not fields: their
  calls are the events of the trace.
\<close>

record tweenConfig =
  cfg_attachment :: attachment
  cfg_delay :: "number option"
  cfg_duration :: "number option"
  cfg_easing :: "easingSpec option"
  cfg_from :: "state option"
  cfg_to :: "state option"

type_synonym filterArgs = "state \<times> state \<times> state \<times> easingObject"

datatype hookName = TweenCreated | BeforeTween | AfterTween | AfterTweenEnd

record filterSet =
  tweenCreated :: "(filterArgs \<Rightarrow> filterArgs) option"
  beforeTween :: "(filterArgs \<Rightarrow> filterArgs) option"
  afterTween :: "(filterArgs \<Rightarrow> filterArgs) option"
  afterTweenEnd :: "(filterArgs \<Rightarrow> filterArgs) option"

fun hookOf :: "hookName \<Rightarrow> filterSet \<Rightarrow> (filterArgs \<Rightarrow> filterArgs) option" where
  "hookOf TweenCreated fs = tweenCreated fs"
| "hookOf BeforeTween fs = beforeTween fs"
| "hookOf AfterTween fs = afterTween fs"
| "hookOf AfterTweenEnd fs = afterTweenEnd fs"

text \<open>
  A call of a caller's function: the \<^verbatim>\<open>start\<close> and \<^verbatim>\<open>step\<close> callbacks of instance
  \<open>t\<close>, and \<^verbatim>\<open>resolve\<close>/\<^verbatim>\<open>reject\<close> of promise \<open>p\<close>.
\<close>

datatype event =
    StartCalled nat state attachment
  | StepCalled nat state attachment number
  | Resolved nat state attachment
  | Rejected nat state attachment

record world =
  tweens :: "nat \<Rightarrow> tweenable"
  tweenQueue :: "nat list"
  filters :: "(string \<times> filterSet) list"
  formulas :: "(string \<times> (number \<Rightarrow> number)) list"
  trace :: "event list"
  nextPromise :: nat

datatype ret = RetThis nat | RetPromise "nat option"

definition updTween :: "nat \<Rightarrow> (tweenable \<Rightarrow> tweenable) \<Rightarrow> world \<Rightarrow> world" where
  "updTween t f w = w\<lparr>tweens := (tweens w)(t := f (tweens w t))\<rparr>"

definition emit :: "event \<Rightarrow> world \<Rightarrow> world" where
  "emit e w = w\<lparr>trace := trace w @ [e]\<rparr>"

text \<open>\<^verbatim>\<open>new Tweenable(initialState)\<close> without a configuration.\<close>

definition newTweenable :: "state \<Rightarrow> tweenable" where
  "newTweenable initialState =
     \<lparr>currentState = initialState, configured = False, attachment = None,
      pausedAtTime = None, delay = 0, duration = 0, originalState = [], targetState = [],
      easing = [], promise = None, timestamp = None, isPaused = False, isTweening = False\<rparr>"

subsection \<open>Filters\<close>

definition filterArgsOf :: "tweenable \<Rightarrow> filterArgs" where
  "filterArgsOf tw = (currentState tw, originalState tw, targetState tw, easing tw)"

definition setFilterArgs :: "filterArgs \<Rightarrow> tweenable \<Rightarrow> tweenable" where
  "setFilterArgs a tw =
     (case a of (c, orig, tgt, e) \<Rightarrow>
        tw\<lparr>currentState := c, originalState := orig, targetState := tgt, easing := e\<rparr>)"

text \<open>
  \<^verbatim>\<open>_applyFilter\<close>: every filter set of the registry that has the hook, in the order
  of registration.
\<close>

fun applyHooks :: "hookName \<Rightarrow> (string \<times> filterSet) list \<Rightarrow> tweenable \<Rightarrow> tweenable" where
  "applyHooks name [] tw = tw"
| "applyHooks name ((n, fs) # rest) tw =
     applyHooks name rest
       (case hookOf name fs of
          None \<Rightarrow> tw
        | Some h \<Rightarrow> setFilterArgs (h (filterArgsOf tw)) tw)"

definition applyFilter :: "nat \<Rightarrow> hookName \<Rightarrow> world \<Rightarrow> world" where
  "applyFilter t filterName w = updTween t (applyHooks filterName (filters w)) w"

subsection \<open>The run queue\<close>

text \<open>\<^verbatim>\<open>Array.prototype.indexOf\<close>: the first index, or -1.\<close>

fun indexOf :: "nat list \<Rightarrow> nat \<Rightarrow> int" where
  "indexOf [] t = -1"
| "indexOf (x # xs) t =
     (if x = t then 0 else (let i = indexOf xs t in if i < 0 then -1 else i + 1))"

text \<open>
  \<^verbatim>\<open>array.splice(start, 1)\<close>: a negative \<open>start\<close> counts from the end of the array.
\<close>

definition splice1 :: "int \<Rightarrow> nat list \<Rightarrow> nat list" where
  "splice1 start xs =
     (let len = int (length xs);
          s = (if start < 0 then max (len + start) 0 else min start len)
      in take (nat s) xs @ drop (nat s + 1) xs)"

subsection \<open>The methods of an instance\<close>

definition isPlaying :: "tweenable \<Rightarrow> bool" where
  "isPlaying tw = (isTweening tw \<and> \<not> isPaused tw)"

text \<open>\<^verbatim>\<open>{...a, ...b}\<close>: the properties of \<open>a\<close>, overwritten and extended by those of \<open>b\<close>.\<close>

definition spread :: "state \<Rightarrow> state \<Rightarrow> state" where
  "spread a b = fold (\<lambda>(k, v). AList.update k v) b a"

definition setConfigT :: "tweenConfig \<Rightarrow> nat \<Rightarrow> tweenable \<Rightarrow> tweenable" where
  "setConfigT config p tw =
     (let cur = (case cfg_from config of Some f \<Rightarrow> f | None \<Rightarrow> currentState tw);
          tgt = spread cur (case cfg_to config of Some g \<Rightarrow> g | None \<Rightarrow> cur)
      in tw\<lparr>configured := True,
             attachment := cfg_attachment config,
             pausedAtTime := None,
             delay := (case cfg_delay config of Some d \<Rightarrow> d | None \<Rightarrow> 0),
             duration := (case cfg_duration config of Some d \<Rightarrow> d | None \<Rightarrow> DEFAULT_DURATION),
             currentState := cur,
             originalState := cur,
             targetState := tgt,
             easing := composeEasingObject cur (cfg_easing config),
             promise := Some p\<rparr>)"

text \<open>
  \<^verbatim>\<open>setConfig\<close>: the fields, then the \<^verbatim>\<open>tweenCreated\<close> hooks, then a new promise.
\<close>

definition setConfig :: "nat \<Rightarrow> tweenConfig \<Rightarrow> world \<Rightarrow> world" where
  "setConfig t config w =
     (applyFilter t TweenCreated (updTween t (setConfigT config (nextPromise w)) w))
       \<lparr>nextPromise := Suc (nextPromise w)\<rparr>"

definition pause :: "nat \<Rightarrow> number \<Rightarrow> world \<Rightarrow> world" where
  "pause t now w = updTween t (\<lambda>tw. tw\<lparr>pausedAtTime := Some now, isPaused := True\<rparr>) w"

text \<open>
  \<^verbatim>\<open>this._timestamp += Tweenable.now() - this._pausedAtTime\<close>: \<^verbatim>\<open>null\<close> counts as 0, and
  an undefined timestamp becomes \<^verbatim>\<open>NaN\<close>.
\<close>

definition resumeT :: "number \<Rightarrow> tweenable \<Rightarrow> tweenable" where
  "resumeT now tw =
     (if isPaused tw
      then tw\<lparr>timestamp :=
                 Some (toNumber (timestamp tw)
                       + (now - (case pausedAtTime tw of None \<Rightarrow> 0 | Some p \<Rightarrow> p)))\<rparr>
      else tw)
     \<lparr>isPaused := False, isTweening := True\<rparr>"

definition resume :: "nat \<Rightarrow> number \<Rightarrow> world \<Rightarrow> ret \<times> world" where
  "resume t now w =
     (let w1 = updTween t (resumeT now) w;
          w2 = w1\<lparr>tweenQueue := t # tweenQueue w1\<rparr>
      in (RetPromise (promise (tweens w2 t)), w2))"

text \<open>
  A failure of an operation on the world: the exception, and the world when it is thrown.
\<close>

type_synonym thrown = "failure \<times> world"

text \<open>
  \<^verbatim>\<open>stop\<close>. The flags are cleared and the queue is spliced first. Without a configuration
  \<^verbatim>\<open>_resolve\<close> and \<^verbatim>\<open>_reject\<close> are undefined, and calling them throws after that.
\<close>

definition stop :: "nat \<Rightarrow> bool \<Rightarrow> world \<Rightarrow> thrown + world" where
  "stop t gotoEnd w =
     (let tw = tweens w t;
          w1 = updTween t (\<lambda>tw. tw\<lparr>isTweening := False, isPaused := False\<rparr>) w;
          w2 = w1\<lparr>tweenQueue := splice1 (indexOf (tweenQueue w1) t) (tweenQueue w1)\<rparr>
      in if gotoEnd
         then
           (let w3 = applyFilter t BeforeTween w2;
                tw3 = tweens w3 t
            in case tweenProps (formulas w3) 1 (currentState tw3) (originalState tw3)
                      (targetState tw3) 1 0 (easing tw3) of
                 Inl (e, c) \<Rightarrow> Inl (e, updTween t (\<lambda>tw. tw\<lparr>currentState := c\<rparr>) w3)
               | Inr c \<Rightarrow>
                   (let w4 = updTween t (\<lambda>tw. tw\<lparr>currentState := c\<rparr>) w3;
                        w5 = applyFilter t AfterTween w4;
                        w6 = applyFilter t AfterTweenEnd w5
                    in case promise tw of
                         None \<Rightarrow> Inl (TypeError, w6)
                       | Some p \<Rightarrow>
                           Inr (emit (Resolved p (currentState (tweens w6 t)) (attachment tw))
                                  w6)))
         else
           (case promise tw of
              None \<Rightarrow> Inl (TypeError, w2)
            | Some p \<Rightarrow>
                Inr (emit (Rejected p (currentState (tweens w2 t)) (attachment tw)) w2)))"

text \<open>
  What a \<^verbatim>\<open>step\<close> callback does: it is given the instance, the state, the attachment
  and the offset, and it may call the methods above, or throw. \<open>onlyLooks\<close> is a callback
  that changes nothing.
\<close>

type_synonym stepFn = "nat \<Rightarrow> state \<Rightarrow> attachment \<Rightarrow> number \<Rightarrow> world \<Rightarrow> thrown + world"

definition onlyLooks :: stepFn where
  "onlyLooks t s a offset w = Inr w"

text \<open>
  \<^verbatim>\<open>processTween\<close>. The assignments to \<^verbatim>\<open>currentTime\<close>, \<^verbatim>\<open>_duration\<close> and
  \<^verbatim>\<open>_timestamp\<close> are to local variables. Without a timestamp every time is \<^verbatim>\<open>NaN\<close>,
  the tween has not ended, and the position is \<^verbatim>\<open>NaN\<close>. Without a configuration the
  times are \<^verbatim>\<open>NaN\<close> too, and the call throws at the first key of the current state
  (\<^verbatim>\<open>_easing\<close> is undefined) or, when there is no key, at the call of \<^verbatim>\<open>_step\<close>, which
  is undefined.
\<close>

definition processTweenWith :: "stepFn \<Rightarrow> nat \<Rightarrow> number \<Rightarrow> world \<Rightarrow> thrown + world" where
  "processTweenWith step t now w =
     (let tw = tweens w t in
      if \<not> configured tw
      then
        (let w1 = applyFilter t BeforeTween w
         in if currentState (tweens w1 t) = [] then Inl (TypeError, applyFilter t AfterTween w1)
            else Inl (TypeError, w1))
      else
        (let ts = toNumber (timestamp tw);
             endTime = ts + delay tw + duration tw;
             currentTime = jsMin now endTime;
             hasEnded = (currentTime \<ge> endTime);
             offset = duration tw - (endTime - currentTime)
         in if hasEnded
            then
              (case step t (targetState tw) (attachment tw) offset
                      (emit (StepCalled t (targetState tw) (attachment tw) offset) w) of
                 Inl x \<Rightarrow> Inl x
               | Inr w' \<Rightarrow> stop t True w')
            else
              (let w1 = applyFilter t BeforeTween w;
                   tw1 = tweens w1 t;
                   inDelay = (currentTime < ts + delay tw);
                   currentTime' = (if inDelay then 1 else currentTime);
                   duration' = (if inDelay then 1 else duration tw);
                   timestamp' = (if inDelay then 1 else ts + delay tw)
               in case tweenProps (formulas w1) currentTime' (currentState tw1)
                         (originalState tw1) (targetState tw1) duration' timestamp'
                         (easing tw1) of
                    Inl (e, c) \<Rightarrow> Inl (e, updTween t (\<lambda>tw. tw\<lparr>currentState := c\<rparr>) w1)
                  | Inr c \<Rightarrow>
                      (let w2 = updTween t (\<lambda>tw. tw\<lparr>currentState := c\<rparr>) w1;
                           w3 = applyFilter t AfterTween w2;
                           tw3 = tweens w3 t
                       in step t (currentState tw3) (attachment tw3) offset
                            (emit (StepCalled t (currentState tw3) (attachment tw3) offset)
                               w3)))))"

definition processTween :: "nat \<Rightarrow> number \<Rightarrow> world \<Rightarrow> thrown + world" where
  "processTween = processTweenWith onlyLooks"

text \<open>
  \<^verbatim>\<open>tween\<close>. \<^verbatim>\<open>setConfig(undefined)\<close> throws (the parameter is destructured); the
  attachment passed to \<^verbatim>\<open>start\<close> was read before \<^verbatim>\<open>setConfig\<close>.
\<close>

definition tween :: "nat \<Rightarrow> tweenConfig option \<Rightarrow> number \<Rightarrow> world \<Rightarrow> thrown + ret \<times> world" where
  "tween t config now w =
     (let tw = tweens w t in
      if isTweening tw then Inr (RetThis t, w)
      else
        (case (if config \<noteq> None \<or> \<not> configured tw
               then (case config of None \<Rightarrow> Inl (TypeError, w) | Some c \<Rightarrow> Inr (setConfig t c w))
               else Inr w) of
           Inl x \<Rightarrow> Inl x
         | Inr w1 \<Rightarrow>
             (let w2 = updTween t (\<lambda>tw. tw\<lparr>timestamp := Some now\<rparr>) w1;
                  w3 = emit (StartCalled t (currentState (tweens w2 t)) (attachment tw)) w2
              in Inr (resume t now w3))))"

definition seek :: "nat \<Rightarrow> number \<Rightarrow> number \<Rightarrow> world \<Rightarrow> thrown + world" where
  "seek t now millisecond w =
     (let millisecond' = jsMax millisecond 0;
          currentTime = now
      in if toNumber (timestamp (tweens w t)) + millisecond' = 0
         then Inr w
         else
           (let w1 = updTween t (\<lambda>tw. tw\<lparr>timestamp := Some (currentTime - millisecond')\<rparr>) w
            in if \<not> isPlaying (tweens w1 t)
               then
                 (case processTween t currentTime
                         (updTween t (\<lambda>tw. tw\<lparr>isTweening := True, isPaused := False\<rparr>) w1) of
                    Inl x \<Rightarrow> Inl x
                  | Inr w2 \<Rightarrow> Inr (pause t now w2))
               else Inr w1))"

subsection \<open>The scheduler loop\<close>

text \<open>
  \<^verbatim>\<open>for (let i = tweenQueue.length; i > 0; i--)\<close>, on the queue as it is at each round.
  An index past the end reads \<^verbatim>\<open>undefined\<close>, and \<^verbatim>\<open>undefined.isPlaying()\<close> throws.
\<close>

fun processLoopWith :: "stepFn \<Rightarrow> nat \<Rightarrow> number \<Rightarrow> world \<Rightarrow> thrown + world" where
  "processLoopWith step 0 now w = Inr w"
| "processLoopWith step (Suc n) now w =
     (if n < length (tweenQueue w)
      then
        (let t = tweenQueue w ! n
         in if \<not> isPlaying (tweens w t) then processLoopWith step n now w
            else (case processTweenWith step t now w of
                    Inl x \<Rightarrow> Inl x
                  | Inr w' \<Rightarrow> processLoopWith step n now w'))
      else Inl (TypeError, w))"

definition processQueueWith :: "stepFn \<Rightarrow> number \<Rightarrow> world \<Rightarrow> thrown + world" where
  "processQueueWith step now w = processLoopWith step (length (tweenQueue w)) now w"

definition processQueue :: "number \<Rightarrow> world \<Rightarrow> thrown + world" where
  "processQueue = processQueueWith onlyLooks"

subsection \<open>Sequencing and the walk over a snapshot\<close>

definition andThen :: "'e + 'a \<Rightarrow> ('a \<Rightarrow> 'e + 'b) \<Rightarrow> 'e + 'b" where
  "andThen r f = (case r of Inl e \<Rightarrow> Inl e | Inr x \<Rightarrow> f x)"

text \<open>The world that a call leaves, whether it returns or throws.\<close>

definition after :: "thrown + world \<Rightarrow> world" where
  "after r = (case r of Inl (e, w) \<Rightarrow> w | Inr w \<Rightarrow> w)"

text \<open>
  The scheduler loop as the specification words it: a walk over the entries of a list
  fixed beforehand, each entry that is playing when its turn comes being ticked with the
  one \<open>now\<close>. The loop of the source, \<open>processLoopWith\<close>, reads the live queue by index.
\<close>

fun tickAll :: "number \<Rightarrow> nat list \<Rightarrow> world \<Rightarrow> thrown + world" where
  "tickAll now [] w = Inr w"
| "tickAll now (t # ts) w =
     (if \<not> isPlaying (tweens w t) then tickAll now ts w
      else (case processTween t now w of
              Inl e \<Rightarrow> Inl e
            | Inr w' \<Rightarrow> tickAll now ts w'))"

subsection \<open>A small scenario\<close>

text \<open>
  The curves of the module come from \<^verbatim>\<open>./easing-functions\<close>, which is not part of this
  file: the registry is a field of the world. The scenario registers the identity under
  the name \<open>linear\<close>, and tweens \<open>x\<close> from 0 to 10 in 100 milliseconds.
\<close>

definition exampleFormulas :: "(string \<times> (number \<Rightarrow> number)) list" where
  "exampleFormulas = [(''linear'', \<lambda>p. p)]"

definition initialWorld :: world where
  "initialWorld =
     \<lparr>tweens = (\<lambda>t. newTweenable []), tweenQueue = [], filters = [],
      formulas = exampleFormulas, trace = [], nextPromise = 0\<rparr>"

definition exampleConfig :: tweenConfig where
  "exampleConfig =
     \<lparr>cfg_attachment = None, cfg_delay = None, cfg_duration = Some (lit 100),
      cfg_easing = Some (Single (Named ''linear'')), cfg_from = Some [(''x'', lit 0)],
      cfg_to = Some [(''x'', lit 10)]\<rparr>"

text \<open>The world after \<^verbatim>\<open>tween(exampleConfig)\<close> on instance \<open>t\<close> at time \<open>now\<close>.\<close>

definition started :: "nat \<Rightarrow> number \<Rightarrow> world \<Rightarrow> thrown + world" where
  "started t now w = andThen (tween t (Some exampleConfig) now w) (\<lambda>(r, w'). Inr w')"

lemmas scenario_defs =
  tween_def setConfig_def setConfigT_def applyFilter_def updTween_def emit_def resume_def
  resumeT_def pause_def stop_def processTween_def processTweenWith_def onlyLooks_def seek_def
  isPlaying_def processQueue_def processQueueWith_def
  tweenProps_def tweenKey_def normalizedPosition_def tweenProp_def composeEasingObject_def
  spread_def newTweenable_def initialWorld_def exampleConfig_def exampleFormulas_def
  andThen_def started_def splice1_def Let_def DEFAULT_EASING_def DEFAULT_DURATION_def
  orDefault_def filterArgsOf_def setFilterArgs_def

subsection \<open>Conditions on a configured instance\<close>

text \<open>The tracked keys of an instance are the keys of its current state.\<close>

definition tracked :: "tweenable \<Rightarrow> string list" where
  "tracked tw = map fst (currentState tw)"

text \<open>Every tracked key has a start value and a destination, and both are numbers.\<close>

definition hasEndpoints :: "tweenable \<Rightarrow> bool" where
  "hasEndpoints tw =
     (\<forall>k \<in> set (tracked tw).
        toNumber (map_of (originalState tw) k) \<noteq> NaN
        \<and> toNumber (map_of (targetState tw) k) \<noteq> NaN)"

text \<open>
  The easing entry of every tracked key is a function, or a name of the registry, and
  that curve satisfies \<open>P\<close>.
\<close>

definition curvesSatisfy ::
  "((number \<Rightarrow> number) \<Rightarrow> bool) \<Rightarrow> (string \<times> (number \<Rightarrow> number)) list \<Rightarrow> tweenable
     \<Rightarrow> bool" where
  "curvesSatisfy P fm tw =
     (\<forall>k \<in> set (tracked tw).
        case easingFn fm (map_of (easing tw) k) of None \<Rightarrow> False | Some f \<Rightarrow> P f)"

lemmas condition_defs = hasEndpoints_def curvesSatisfy_def tracked_def

text \<open>The current state agrees with the target state on every tracked key.\<close>

definition atTarget :: "tweenable \<Rightarrow> bool" where
  "atTarget tw =
     (\<forall>k \<in> set (tracked tw). map_of (currentState tw) k = map_of (targetState tw) k)"

text \<open>The current state agrees with the original state on every tracked key.\<close>

definition atOrigin :: "tweenable \<Rightarrow> bool" where
  "atOrigin tw =
     (\<forall>k \<in> set (tracked tw). map_of (currentState tw) k = map_of (originalState tw) k)"

text \<open>
  The current state is the interpolation at \<open>position\<close>: every tracked key holds
  \<open>tweenProp\<close> of its start value, its destination and its curve.
\<close>

definition interpolatedAt ::
  "(string \<times> (number \<Rightarrow> number)) list \<Rightarrow> number \<Rightarrow> tweenable \<Rightarrow> bool" where
  "interpolatedAt fm position tw =
     (\<forall>k \<in> set (tracked tw).
        case (map_of (originalState tw) k, map_of (targetState tw) k,
              easingFn fm (map_of (easing tw) k)) of
          (Some a, Some b, Some f) \<Rightarrow>
            map_of (currentState tw) k = Some (tweenProp a b f position)
        | _ \<Rightarrow> False)"

text \<open>
  The difference \<open>b - a\<close> of two numbers is exact: the real difference of their values
  is a binary64 value. The current state after the jump to the end under curves with
  \<open>f 1 = 1\<close>: every tracked key holds \<open>a + (b - a)\<close>, computed in binary64, for its start
  value \<open>a\<close> and its destination \<open>b\<close>. Every tracked key has an exact difference.
\<close>

definition exactDiff :: "number \<Rightarrow> number \<Rightarrow> bool" where
  "exactDiff a b =
     (case (a, b) of
        (Num x, Num y) \<Rightarrow> isDouble (realOf y - realOf x)
      | _ \<Rightarrow> False)"

definition atJump :: "tweenable \<Rightarrow> bool" where
  "atJump tw =
     (\<forall>k \<in> set (tracked tw).
        map_of (currentState tw) k
          = Some (toNumber (map_of (originalState tw) k)
                  + (toNumber (map_of (targetState tw) k)
                     - toNumber (map_of (originalState tw) k))))"

definition exactDiffs :: "tweenable \<Rightarrow> bool" where
  "exactDiffs tw =
     (\<forall>k \<in> set (tracked tw).
        exactDiff (toNumber (map_of (originalState tw) k))
          (toNumber (map_of (targetState tw) k)))"

text \<open>
  A filter set whose \<^verbatim>\<open>afterTween\<close> hook clamps every value of the current state to at
  most 5, and the scenario's world with this filter set registered.
\<close>

definition clampFilter :: filterSet where
  "clampFilter =
     \<lparr>tweenCreated = None, beforeTween = None,
      afterTween = Some (\<lambda>(c, orig, tgt, e). (map (\<lambda>(k, v). (k, jsMin v (lit 5))) c, orig, tgt, e)),
      afterTweenEnd = None\<rparr>"

definition clampedWorld :: world where
  "clampedWorld = initialWorld\<lparr>filters := [(''clamp'', clampFilter)]\<rparr>"

text \<open>The value that \<open>tweenProps\<close> gives key \<open>k\<close> at a position.\<close>

definition valueAt ::
  "(string \<times> (number \<Rightarrow> number)) list \<Rightarrow> tweenable \<Rightarrow> number \<Rightarrow> string \<Rightarrow> number" where
  "valueAt fm tw p k =
     tweenProp (toNumber (map_of (originalState tw) k)) (toNumber (map_of (targetState tw) k))
       (the (easingFn fm (map_of (easing tw) k))) p"

text \<open>
  The scenario with a delay of 100 milliseconds, and with the curve \<open>1 - p\<close> given as a
  function in place of \<open>linear\<close>; the scenario from one half to one tenth.
\<close>

definition delayedConfig :: tweenConfig where
  "delayedConfig = exampleConfig\<lparr>cfg_delay := Some (lit 100)\<rparr>"

definition reversedConfig :: tweenConfig where
  "reversedConfig = delayedConfig\<lparr>cfg_easing := Some (Single (Func (\<lambda>p. 1 - p)))\<rparr>"

definition fractionConfig :: tweenConfig where
  "fractionConfig =
     exampleConfig\<lparr>cfg_from := Some [(''x'', lit (1 / 2))], cfg_to := Some [(''x'', lit (1 / 10))]\<rparr>"

text \<open>The world after \<^verbatim>\<open>tween(config)\<close> on instance \<open>t\<close> at time \<open>now\<close>.\<close>

definition startedWith :: "tweenConfig \<Rightarrow> nat \<Rightarrow> number \<Rightarrow> world \<Rightarrow> thrown + world" where
  "startedWith config t now w = andThen (tween t (Some config) now w) (\<lambda>(r, w'). Inr w')"

subsection \<open>A step callback that stops its instance\<close>

text \<open>
  The scenario with two instances: instance 0 started at 0 for 100 milliseconds, then
  instance 1 started at 0 for 200 milliseconds, so that the queue is \<open>[1, 0]\<close>. The step
  callback of instance 0 calls \<^verbatim>\<open>stop()\<close> on its instance once the offset has reached the
  duration of 100; the step callback of instance 1 only looks.
\<close>

definition longConfig :: tweenConfig where
  "longConfig = exampleConfig\<lparr>cfg_duration := Some (lit 200)\<rparr>"

definition twoStarted :: "thrown + world" where
  "twoStarted = andThen (started 0 0 initialWorld) (startedWith longConfig 1 0)"

definition stopsAtEnd :: stepFn where
  "stopsAtEnd t s a offset w = (if t = 0 \<and> lit 100 \<le> offset then stop 0 False w else Inr w)"

subsection \<open>The early return of seek\<close>

text \<open>
  The test \<^verbatim>\<open>this._timestamp + millisecond === 0\<close> of \<open>seek\<close>, after the clamp; it is
  false for an undefined timestamp.
\<close>

definition seekReturnsEarly :: "tweenable \<Rightarrow> number \<Rightarrow> bool" where
  "seekReturnsEarly tw millisecond =
     (case timestamp tw of None \<Rightarrow> False | Some ts \<Rightarrow> ts + max millisecond 0 = 0)"

text \<open>A step callback of instance \<open>t\<close> is among the calls.\<close>

fun stepCalledIn :: "nat \<Rightarrow> event list \<Rightarrow> bool" where
  "stepCalledIn t [] = False"
| "stepCalledIn t (StepCalled u s a off # evs) = (u = t \<or> stepCalledIn t evs)"
| "stepCalledIn t (e # evs) = stepCalledIn t evs"

section \<open>Properties\<close>

subsection \<open>Numbers\<close>

lemma pow2_powr: "pow2 e = 2 powr (of_int e)"
  by (auto simp: pow2_def powr_realpow [symmetric] powr_minus [symmetric])

lemma pow2_pos [simp]: "0 < pow2 e"
  by (simp add: pow2_powr)

lemma pow2_nz [simp]: "pow2 e \<noteq> 0"
  by (simp add: pow2_powr)

lemma pow2_abs [simp]: "\<bar>pow2 e\<bar> = pow2 e"
  by (simp add: pow2_powr)

lemma pow2_add: "pow2 (a + b) = pow2 a * pow2 b"
  by (simp add: pow2_powr powr_add)

lemma pow2_nat: "pow2 (int n) = 2 ^ n"
  by (simp add: pow2_def)

lemma pow2_mono: "a \<le> b \<Longrightarrow> pow2 a \<le> pow2 b"
  by (simp add: pow2_powr)

lemma pow2_less: "pow2 a < pow2 b \<longleftrightarrow> a < b"
  by (simp add: pow2_powr)

lemma roundEven_int [simp]: "roundEven (of_int n) = n"
  by (simp add: roundEven_def)

lemma roundEven_bound:
  assumes "\<bar>q\<bar> < of_int N"
  shows "\<bar>roundEven q\<bar> \<le> N"
proof -
  have "q < of_int N" using assms by linarith
  then have "\<lfloor>q\<rfloor> < N" by (simp add: floor_less_iff)
  then have a: "\<lfloor>q\<rfloor> \<le> N - 1" by simp
  have "of_int (- N) \<le> q" using assms by simp
  then have b: "- N \<le> \<lfloor>q\<rfloor>" by (simp only: le_floor_iff)
  have c: "roundEven q = \<lfloor>q\<rfloor> \<or> roundEven q = \<lfloor>q\<rfloor> + 1"
    by (simp add: roundEven_def Let_def)
  from a b c show ?thesis by auto
qed

lemma floor_log2_bounds:
  assumes "x \<noteq> 0"
  shows "pow2 \<lfloor>log 2 \<bar>x\<bar>\<rfloor> \<le> \<bar>x\<bar>" and "\<bar>x\<bar> < pow2 (\<lfloor>log 2 \<bar>x\<bar>\<rfloor> + 1)"
proof -
  have p: "0 < \<bar>x\<bar>" using assms by simp
  have "of_int \<lfloor>log 2 \<bar>x\<bar>\<rfloor> \<le> log 2 \<bar>x\<bar>" by simp
  then show "pow2 \<lfloor>log 2 \<bar>x\<bar>\<rfloor> \<le> \<bar>x\<bar>"
    using p by (simp add: pow2_powr powr_le_iff)
  have "log 2 \<bar>x\<bar> < of_int (\<lfloor>log 2 \<bar>x\<bar>\<rfloor> + 1)" by linarith
  then show "\<bar>x\<bar> < pow2 (\<lfloor>log 2 \<bar>x\<bar>\<rfloor> + 1)"
    using p by (simp add: pow2_powr less_powr_iff)
qed

lemma floor_log2_eq:
  assumes "pow2 k \<le> \<bar>x\<bar>" and "\<bar>x\<bar> < pow2 (k + 1)"
  shows "\<lfloor>log 2 \<bar>x\<bar>\<rfloor> = k"
proof -
  have p: "0 < \<bar>x\<bar>" using assms(1) pow2_pos [of k] by linarith
  have "of_int k \<le> log 2 \<bar>x\<bar>" using assms(1) p by (simp add: pow2_powr powr_le_iff)
  moreover have "log 2 \<bar>x\<bar> < of_int (k + 1)" using assms(2) p by (simp add: pow2_powr less_powr_iff)
  ultimately show ?thesis by (simp add: floor_eq_iff)
qed


lemma scaled_bound:
  assumes "x \<noteq> 0"
  shows "\<bar>x / pow2 (expo x)\<bar> < 2 ^ 53"
proof -
  let ?f = "\<lfloor>log 2 \<bar>x\<bar>\<rfloor>"
  have "\<bar>x\<bar> < pow2 (?f + 1)" using assms by (rule floor_log2_bounds)
  also have "pow2 (?f + 1) = pow2 ((?f - 52) + 53)"
    by (rule arg_cong [where f = pow2]) simp
  also have "\<dots> = pow2 (?f - 52) * pow2 53"
    by (rule pow2_add)
  also have "\<dots> \<le> pow2 (expo x) * pow2 53"
    by (intro mult_right_mono pow2_mono) (simp_all add: expo_def less_imp_le)
  finally have "\<bar>x\<bar> < pow2 (expo x) * 2 ^ 53"
    using pow2_nat [of 53] by simp
  then show ?thesis
    by (simp add: abs_divide pos_divide_less_eq mult.commute)
qed

lemma rnd_dyadic:
  assumes m: "\<bar>m\<bar> \<le> 2 ^ 53" and k: "- 1074 \<le> k"
  shows "rnd (of_int m * pow2 k) = of_int m * pow2 k"
proof (cases "m = 0")
  case True
  then show ?thesis by (simp add: rnd_def)
next
  case False
  let ?y = "of_int m * pow2 k :: real"
  let ?f = "\<lfloor>log 2 \<bar>?y\<bar>\<rfloor>"
  have y0: "?y \<noteq> 0" using False by simp
  have ay: "\<bar>?y\<bar> = of_int \<bar>m\<bar> * pow2 k" by (simp add: abs_mult)
  define e where "e = expo ?y"
  show ?thesis
  proof (cases "expo ?y \<le> k")
    case True
    then obtain n where n: "k = e + int n"
      unfolding e_def by (metis zle_iff_zadd)
    have "?y / pow2 e = of_int (m * 2 ^ n)"
      by (simp add: n pow2_add pow2_nat)
    then have "roundEven (?y / pow2 e) = m * 2 ^ n"
      by (simp only: roundEven_int)
    then have "rnd ?y = of_int (m * 2 ^ n) * pow2 e"
      using y0 by (simp add: rnd_def e_def)
    also have "\<dots> = of_int m * (pow2 e * pow2 (int n))"
      by (simp add: pow2_nat)
    also have "pow2 e * pow2 (int n) = pow2 k"
      by (simp only: pow2_add [symmetric] n)
    finally show ?thesis .
  next
    case False
    then have e: "expo ?y = ?f - 52" and fk: "k + 53 \<le> ?f"
      using k by (simp_all add: expo_def max_def split: if_splits)
    have "pow2 (k + 53) \<le> pow2 ?f" using fk by (rule pow2_mono)
    also have "\<dots> \<le> \<bar>?y\<bar>" using y0 by (rule floor_log2_bounds)
    finally have "pow2 k * 2 ^ 53 \<le> of_int \<bar>m\<bar> * pow2 k"
      using pow2_nat [of 53] by (simp add: pow2_add ay)
    then have "(2::real) ^ 53 \<le> of_int \<bar>m\<bar>"
      by (simp add: mult.commute)
    then have "(2::int) ^ 53 \<le> \<bar>m\<bar>"
      by (metis of_int_le_iff of_int_numeral of_int_power)
    with m have am: "\<bar>m\<bar> = 2 ^ 53" by simp
    have lo: "pow2 (k + 53) \<le> \<bar>?y\<bar>"
      using pow2_nat [of 53] by (simp add: ay am pow2_add)
    have hi: "\<bar>?y\<bar> < pow2 (k + 53 + 1)"
      using pow2_nat [of 54] by (simp add: ay am pow2_add)
    have f: "?f = k + 53" using lo hi by (rule floor_log2_eq)
    have e1: "e = k + 1" using e f by (simp add: e_def)
    have "\<bar>m\<bar> = 9007199254740992" using am by simp
    then have "m = 2 * (m div 2)" by presburger
    then obtain h where h: "m = 2 * h" ..
    have p1: "pow2 (k + 1) = pow2 k * 2"
      using pow2_nat [of 1] by (simp add: pow2_add)
    have "?y / pow2 e = of_int h"
      by (simp add: e1 h p1)
    then have "roundEven (?y / pow2 e) = h"
      by (simp only: roundEven_int)
    then have "rnd ?y = of_int h * pow2 e"
      using y0 by (simp add: rnd_def e_def)
    also have "\<dots> = ?y"
      by (simp add: e1 h p1)
    finally show ?thesis .
  qed
qed

lemma isDouble_dyadic:
  "\<bar>m\<bar> \<le> 2 ^ 53 \<Longrightarrow> - 1074 \<le> k \<Longrightarrow> isDouble (of_int m * pow2 k)"
  by (simp add: isDouble_def rnd_dyadic)

lemma isDouble_rnd [simp]: "isDouble (rnd x)"
proof (cases "x = 0")
  case True
  then show ?thesis by (simp add: isDouble_def rnd_def)
next
  case False
  then have "\<bar>x / pow2 (expo x)\<bar> < of_int (2 ^ 53)"
    using scaled_bound [of x] by simp
  then have "\<bar>roundEven (x / pow2 (expo x))\<bar> \<le> 2 ^ 53"
    by (rule roundEven_bound)
  moreover have "- 1074 \<le> expo x" by (simp add: expo_def)
  ultimately have "isDouble (of_int (roundEven (x / pow2 (expo x))) * pow2 (expo x))"
    by (rule isDouble_dyadic)
  then show ?thesis using False by (simp add: rnd_def)
qed

lemma rnd_rnd [simp]: "rnd (rnd x) = rnd x"
  using isDouble_rnd [of x] by (simp only: isDouble_def)

lemma isDouble_0 [simp]: "isDouble 0"
  by (simp add: isDouble_def rnd_def)

lemma isDouble_of_int: "\<bar>n\<bar> \<le> 2 ^ 53 \<Longrightarrow> isDouble (of_int n)"
  using isDouble_dyadic [of n 0] by (simp add: pow2_def)



lemma rnd_0 [simp]: "rnd 0 = 0"
  by (simp add: rnd_def)

lemma rnd_id: "isDouble x \<Longrightarrow> rnd x = x"
  by (simp add: isDouble_def)

lemma in_range_rnd [simp]: "x \<in> range rnd \<longleftrightarrow> isDouble x"
proof
  assume "x \<in> range rnd"
  then show "isDouble x" by auto
next
  assume "isDouble x"
  then have "x = rnd x" by (simp add: isDouble_def)
  then show "x \<in> range rnd" by (rule range_eqI)
qed

lemma isDouble_realOf [simp]: "isDouble (realOf a)"
  using realOf [of a] by simp

lemma rnd_realOf [simp]: "rnd (realOf a) = realOf a"
  by (simp add: rnd_id)

lemma isDouble_1 [simp]: "isDouble 1"
  using isDouble_of_int [of 1] by simp

lemma isDouble_numeral [simp]: "numeral n \<le> (2 ^ 53 :: int) \<Longrightarrow> isDouble (numeral n)"
  using isDouble_of_int [of "numeral n"] by simp

lemma isDouble_neg_numeral [simp]: "numeral n \<le> (2 ^ 53 :: int) \<Longrightarrow> isDouble (- numeral n)"
  using isDouble_of_int [of "- numeral n"] by simp

lemma isDouble_half [simp]: "isDouble (1 / 2)"
  using isDouble_dyadic [of 1 "- 1"] by (simp add: pow2_def)

lemma rnd_eval:
  assumes "pow2 k \<le> \<bar>x\<bar>" and "\<bar>x\<bar> < pow2 (k + 1)"
  shows "rnd x = of_int (roundEven (x / pow2 (max (k - 52) (- 1074)))) * pow2 (max (k - 52) (- 1074))"
proof -
  have "x \<noteq> 0"
  proof
    assume "x = 0"
    with assms(1) have "pow2 k \<le> 0" by simp
    with pow2_pos [of k] show False by linarith
  qed
  moreover have "expo x = max (k - 52) (- 1074)"
    using floor_log2_eq [OF assms] by (simp add: expo_def)
  ultimately show ?thesis by (simp add: rnd_def)
qed

lemma realOf_Dbl: "realOf (Dbl x) = rnd x"
  by (rule Dbl.rep_eq)

lemma Dbl_realOf [simp]: "Dbl (realOf a) = a"
  by transfer (simp add: rnd_id)

lemma Dbl_rnd [simp]: "Dbl (rnd x) = Dbl x"
  by transfer simp

lemma realOf_0 [simp]: "realOf 0 = 0"
  by (simp add: zero_double.rep_eq)

lemma realOf_1 [simp]: "realOf 1 = 1"
  by (simp add: one_double.rep_eq rnd_id)

lemma realOf_inject': "(a = b) = (realOf a = realOf b)"
  by (simp add: realOf_inject)

lemma double_add_0 [simp]: "a + 0 = (a::double)" "0 + a = a"
  by (transfer; simp add: rnd_id)+

lemma double_diff_0 [simp]: "a - 0 = (a::double)"
  by transfer (simp add: rnd_id)

lemma double_diff_self [simp]: "a - a = (0::double)"
  by transfer simp

lemma double_mult_0 [simp]: "a * 0 = (0::double)" "0 * a = 0"
  by (transfer; simp)+

lemma double_mult_1 [simp]: "a * 1 = (a::double)" "1 * a = a"
  by (transfer; simp add: rnd_id)+

lemma double_div_1 [simp]: "a / 1 = (a::double)"
  by transfer (simp add: rnd_id)

lemma double_one_neq_zero [simp]: "(1::double) \<noteq> 0" "(0::double) \<noteq> 1"
  by (transfer; simp add: rnd_id)+

lemma Dbl_0: "Dbl 0 = 0"
  by transfer simp

lemma Dbl_1: "Dbl 1 = 1"
  by transfer simp

lemma Dbl_add: "isDouble x \<Longrightarrow> isDouble y \<Longrightarrow> Dbl x + Dbl y = Dbl (x + y)"
  by transfer (simp add: rnd_id)

lemma Dbl_diff: "isDouble x \<Longrightarrow> isDouble y \<Longrightarrow> Dbl x - Dbl y = Dbl (x - y)"
  by transfer (simp add: rnd_id)

lemma Dbl_mult: "isDouble x \<Longrightarrow> isDouble y \<Longrightarrow> Dbl x * Dbl y = Dbl (x * y)"
  by transfer (simp add: rnd_id)

lemma Dbl_divide: "isDouble x \<Longrightarrow> isDouble y \<Longrightarrow> Dbl x / Dbl y = Dbl (x / y)"
  by transfer (simp add: rnd_id)

lemma Dbl_eq: "isDouble x \<Longrightarrow> isDouble y \<Longrightarrow> (Dbl x = Dbl y) = (x = y)"
  by transfer (simp add: rnd_id)

lemma Dbl_less: "isDouble x \<Longrightarrow> isDouble y \<Longrightarrow> (Dbl x < Dbl y) = (x < y)"
  by transfer (simp add: rnd_id)

lemma Dbl_le: "isDouble x \<Longrightarrow> isDouble y \<Longrightarrow> (Dbl x \<le> Dbl y) = (x \<le> y)"
  by transfer (simp add: rnd_id)



lemma number_add_0 [simp]: "x + 0 = (x::number)" "0 + x = x"
  by (cases x; simp add: zero_number_def)+

lemma number_diff_0 [simp]: "x - 0 = (x::number)"
  by (cases x; simp add: zero_number_def)

lemma number_mult_1 [simp]: "x * 1 = (x::number)" "1 * x = x"
  by (cases x; simp add: one_number_def)+

lemma number_div_1 [simp]: "x / 1 = (x::number)"
  by (cases x; simp add: one_number_def)

lemma number_mult_0: "x * 0 = (if x = NaN then NaN else (0::number))"
  by (cases x; simp add: zero_number_def)

lemma number_Num_mult_0 [simp]: "Num a * 0 = 0"
  by (simp add: zero_number_def)

lemma number_zero_neq [simp]: "(0::number) \<noteq> NaN" "NaN \<noteq> (0::number)"
  "(1::number) \<noteq> NaN" "NaN \<noteq> (1::number)" "(1::number) \<noteq> 0" "(0::number) \<noteq> 1"
  by (simp_all add: zero_number_def one_number_def)

lemma number_one_diff_zero [simp]: "(1::number) - 0 = 1" "(1::number) - 1 = 0"
  by (simp_all add: zero_number_def one_number_def)

lemma number_less_irrefl [simp]: "\<not> (x::number) < x"
  by (cases x; simp)

lemma number_less_NaN [simp]: "\<not> NaN < (x::number)" "\<not> x < NaN" "\<not> NaN \<le> x" "\<not> x \<le> NaN"
  by (cases x; simp)+

lemma number_lessD: "(x::number) < y \<Longrightarrow> x \<noteq> NaN \<and> y \<noteq> NaN \<and> x \<le> y \<and> \<not> y \<le> x \<and> \<not> y < x"
  by (cases x; cases y; auto)

lemma number_leD: "(x::number) \<le> y \<Longrightarrow> x \<noteq> NaN \<and> y \<noteq> NaN \<and> \<not> y < x"
  by (cases x; cases y; simp)

lemma number_not_less: "x \<noteq> NaN \<Longrightarrow> y \<noteq> NaN \<Longrightarrow> (\<not> (x::number) < y) = (y \<le> x)"
  by (cases x; cases y; auto)

lemma number_add_NaN: "(x::number) + y \<noteq> NaN \<longleftrightarrow> x \<noteq> NaN \<and> y \<noteq> NaN"
  by (cases x; cases y; simp)

lemma number_diff_NaN: "(x::number) - y \<noteq> NaN \<longleftrightarrow> x \<noteq> NaN \<and> y \<noteq> NaN"
  by (cases x; cases y; simp)

lemma jsMin_less: "(x::number) < y \<Longrightarrow> jsMin x y = x"
  by (cases x; cases y; auto simp add: jsMin_def min_def)

lemma jsMin_ge: "(y::number) \<le> x \<Longrightarrow> jsMin x y = y"
  by (cases x; cases y; auto simp add: jsMin_def min_def)

lemma jsMin_NaN [simp]: "jsMin NaN y = NaN" "jsMin x NaN = NaN"
  by (simp_all add: jsMin_def)

lemma jsMin_cases: "jsMin x y = NaN \<or> (x < y \<and> jsMin x y = x) \<or> (y \<le> x \<and> jsMin x y = y)"
  by (cases x; cases y; auto simp: jsMin_def min_def)

lemma jsMax_zero: "jsMax x 0 = max x 0"
  by (cases x; simp add: jsMax_def max_def)

lemma number_max_idem [simp]: "max (max x (0::number)) 0 = max x 0"
  by (cases x; simp add: max_def zero_number_def)

lemma lit_0: "lit 0 = 0"
  by (simp add: lit_def zero_number_def Dbl_0)

lemma lit_1: "lit 1 = 1"
  by (simp add: lit_def one_number_def Dbl_1)

lemma lit_rnd [simp]: "lit (rnd x) = lit x"
  by (simp add: lit_def)

lemma lit_neq_NaN [simp]: "lit x \<noteq> NaN" "NaN \<noteq> lit x"
  by (simp_all add: lit_def)

lemma lit_add: "isDouble x \<Longrightarrow> isDouble y \<Longrightarrow> lit x + lit y = lit (x + y)"
  by (simp add: lit_def Dbl_add)

lemma lit_diff: "isDouble x \<Longrightarrow> isDouble y \<Longrightarrow> lit x - lit y = lit (x - y)"
  by (simp add: lit_def Dbl_diff)

lemma lit_mult: "isDouble x \<Longrightarrow> isDouble y \<Longrightarrow> lit x * lit y = lit (x * y)"
  by (simp add: lit_def Dbl_mult)

lemma lit_divide:
  "isDouble x \<Longrightarrow> isDouble y \<Longrightarrow> lit x / lit y = (if y = 0 then NaN else lit (x / y))"
  by (simp add: lit_def Dbl_divide Dbl_eq Dbl_0 [symmetric])

lemma lit_eq: "isDouble x \<Longrightarrow> isDouble y \<Longrightarrow> (lit x = lit y) = (x = y)"
  by (simp add: lit_def Dbl_eq)

lemma lit_less: "isDouble x \<Longrightarrow> isDouble y \<Longrightarrow> (lit x < lit y) = (x < y)"
  by (simp add: lit_def Dbl_less)

lemma lit_le: "isDouble x \<Longrightarrow> isDouble y \<Longrightarrow> (lit x \<le> lit y) = (x \<le> y)"
  by (simp add: lit_def Dbl_le)

lemma lit_min: "isDouble x \<Longrightarrow> isDouble y \<Longrightarrow> jsMin (lit x) (lit y) = lit (min x y)"
  by (simp add: jsMin_def min_def lit_le)

lemma lit_max: "isDouble x \<Longrightarrow> isDouble y \<Longrightarrow> max (lit x) (lit y) = lit (max x y)"
  by (simp add: max_def lit_le)

lemma lit_jsMax: "isDouble x \<Longrightarrow> isDouble y \<Longrightarrow> jsMax (lit x) (lit y) = lit (max x y)"
  by (simp add: jsMax_def max_def lit_le)

lemmas lit_eval =
  lit_0 [symmetric] lit_1 [symmetric] lit_add lit_diff lit_mult lit_divide lit_eq lit_less
  lit_le lit_min lit_max lit_jsMax


subsection \<open>Interpolation of one property\<close>

lemma double_plus_eq: "a + b = Dbl (realOf a + realOf b)"
  by transfer simp

lemma exactDiff_round_trip: "exactDiff a b \<Longrightarrow> a + (b - a) = b"
proof -
  assume e: "exactDiff a b"
  then obtain x y where ab: "a = Num x" "b = Num y" and d: "isDouble (realOf y - realOf x)"
    by (auto simp: exactDiff_def split: number.splits)
  have "realOf (y - x) = realOf y - realOf x"
    using d by (simp add: minus_double.rep_eq rnd_id)
  then have "x + (y - x) = y"
    by (simp add: double_plus_eq)
  then show ?thesis by (simp add: ab)
qed



text \<open>
  C7 as stated fails at position 1. The literal \<^verbatim>\<open>0.1\<close> is the binary64 value
  \<open>3602879701896397 / 2 ^ 55\<close>, and from \<^verbatim>\<open>0.5\<close> to \<^verbatim>\<open>0.1\<close> along the identity the result
  is \<open>3602879701896396 / 2 ^ 55\<close>, that is \<^verbatim>\<open>0.09999999999999998\<close>. From \<^verbatim>\<open>1e16\<close> to 1 the
  result is 0.
\<close>

lemma rnd_tenth: "rnd (1 / 10) = 3602879701896397 / 36028797018963968"
  by (subst rnd_eval [where k = "- 4"]) (simp_all add: pow2_def roundEven_def Let_def)

lemma isDouble_tenth: "isDouble (3602879701896397 / 36028797018963968)"
  using isDouble_rnd [of "1 / 10"] by (simp only: rnd_tenth)

lemma rnd_tenth_minus_half:
  "rnd (3602879701896397 / 36028797018963968 - 1 / 2) = - (7205759403792794 / 18014398509481984)"
  by (subst rnd_eval [where k = "- 2"]) (simp_all add: pow2_def roundEven_def Let_def)

lemma isDouble_tenth_minus_half: "isDouble (- (7205759403792794 / 18014398509481984))"
  using isDouble_rnd [of "3602879701896397 / 36028797018963968 - 1 / 2"]
  by (simp only: rnd_tenth_minus_half)

lemma isDouble_below_tenth: "isDouble (3602879701896396 / 36028797018963968)"
  using isDouble_dyadic [of 3602879701896396 "- 55"] by (simp add: pow2_def)

lemma lit_tenth: "lit (1 / 10) = lit (3602879701896397 / 36028797018963968)"
  using lit_rnd [of "1 / 10"] by (simp only: rnd_tenth)

lemma half_to_tenth:
  "lit (1 / 2) + (lit (1 / 10) - lit (1 / 2)) = lit (3602879701896396 / 36028797018963968)"
proof -
  have "lit (1 / 10) - lit (1 / 2) = lit (3602879701896397 / 36028797018963968 - 1 / 2)"
    by (simp only: lit_tenth lit_diff [OF isDouble_tenth isDouble_half])
  also have "\<dots> = lit (- (7205759403792794 / 18014398509481984))"
    using lit_rnd [of "3602879701896397 / 36028797018963968 - 1 / 2"]
    by (simp only: rnd_tenth_minus_half)
  finally have "lit (1 / 2) + (lit (1 / 10) - lit (1 / 2))
      = lit (1 / 2 + - (7205759403792794 / 18014398509481984))"
    by (simp only: lit_add [OF isDouble_half isDouble_tenth_minus_half])
  also have "1 / 2 + - (7205759403792794 / 18014398509481984)
      = (3602879701896396 / 36028797018963968 :: real)"
    by simp
  finally show ?thesis .
qed

lemma below_tenth_neq: "lit (3602879701896396 / 36028797018963968) \<noteq> lit (1 / 10)"
  unfolding lit_tenth lit_eq [OF isDouble_below_tenth isDouble_tenth] by simp

lemma isDouble_1e16: "isDouble 10000000000000000"
  using isDouble_dyadic [of 152587890625 16] by (simp add: pow2_def)

lemma rnd_one_minus_1e16: "rnd (1 - 10000000000000000) = - 10000000000000000"
  by (subst rnd_eval [where k = 53]) (simp_all add: pow2_def roundEven_def Let_def)

lemma from_1e16_to_one: "lit 10000000000000000 + (1 - lit 10000000000000000) = 0"
proof -
  have n: "isDouble (- 10000000000000000)"
    using isDouble_rnd [of "1 - 10000000000000000"] by (simp only: rnd_one_minus_1e16)
  have "1 - lit 10000000000000000 = lit (1 - 10000000000000000)"
    by (simp only: lit_1 [symmetric] lit_diff [OF isDouble_1 isDouble_1e16])
  also have "\<dots> = lit (- 10000000000000000)"
    using lit_rnd [of "1 - 10000000000000000"] by (simp only: rnd_one_minus_1e16)
  finally have "lit 10000000000000000 + (1 - lit 10000000000000000)
      = lit (10000000000000000 + - 10000000000000000)"
    by (simp only: lit_add [OF isDouble_1e16 n])
  then show ?thesis by (simp add: lit_0)
qed


subsection \<open>Easing composition\<close>

lemma map_of_const_keys:
  "map_of (map (\<lambda>(prop, v). (prop, g prop)) s) k = (if k \<in> fst ` set s then Some (g k) else None)"
  by (induction s) auto

text \<open>
  C8, as the code has it. The composed easing object has exactly the keys of the state
  object, in its order. A single string or function is given to every key. With a
  partial mapping, a key gets the mapping's entry when that entry is a function or a
  non-empty string, and \<open>linear\<close> when the entry is missing or is the empty string.
\<close>

theorem composeEasingObject_total:
  "map fst (composeEasingObject s spec) = map fst s
   \<and> (k \<in> fst ` set s \<longrightarrow> map_of (composeEasingObject s (Some (Single e))) k = Some e)
   \<and> (k \<in> fst ` set s \<longrightarrow>
        map_of (composeEasingObject s (Some (PerProp obj))) k =
          Some (case map_of obj k of
                  None \<Rightarrow> Named ''linear''
                | Some (Named n) \<Rightarrow> if n = [] then Named ''linear'' else Named n
                | Some (Func f) \<Rightarrow> Func f))"
proof -
  have keys: "map fst (composeEasingObject s spec) = map fst s"
    by (auto simp: composeEasingObject_def split: option.splits easingSpec.splits)
  have od: "orDefault (map_of obj k) =
      (case map_of obj k of
         None \<Rightarrow> Named ''linear''
       | Some (Named n) \<Rightarrow> if n = [] then Named ''linear'' else Named n
       | Some (Func f) \<Rightarrow> Func f)"
    by (simp add: orDefault_def DEFAULT_EASING_def split: option.splits easingValue.splits)
  show ?thesis
    using keys od by (simp add: composeEasingObject_def map_of_const_keys)
qed

theorem composeEasingObject_total_witness:
  "map fst (composeEasingObject [(''x'', 0), (''y'', 0)]
              (Some (PerProp [(''x'', Named ''easeInQuad'')]))) = [''x'', ''y'']
   \<and> map_of (composeEasingObject [(''x'', 0), (''y'', 0)]
                (Some (Single (Named ''easeInQuad'')))) ''y'' = Some (Named ''easeInQuad'')
   \<and> map_of (composeEasingObject [(''x'', 0), (''y'', 0)]
                (Some (PerProp [(''x'', Named ''easeInQuad'')]))) ''y'' = Some (Named ''linear'')"
  using composeEasingObject_total [of "[(''x'', 0), (''y'', 0)]"
      "Some (PerProp [(''x'', Named ''easeInQuad'')])" "''y''" "Named ''easeInQuad''"
      "[(''x'', Named ''easeInQuad'')]"]
  by simp

text \<open>
  C8 as stated fails for an entry that is the empty string: the entry is present, and the
  key is mapped to \<open>linear\<close>.
\<close>

theorem composeEasingObject_empty_name:
  "map_of [(''x'', Named [])] ''x'' = Some (Named [])
   \<and> map_of (composeEasingObject [(''x'', 0)] (Some (PerProp [(''x'', Named [])]))) ''x''
       = Some (Named ''linear'')"
  by (simp add: composeEasingObject_def orDefault_def DEFAULT_EASING_def)

subsection \<open>The run queue\<close>

lemma indexOf_absent: "t \<notin> set q \<Longrightarrow> indexOf q t = -1"
  by (induction q) (auto simp: Let_def)

lemma indexOf_present:
  "t \<in> set q \<Longrightarrow>
     0 \<le> indexOf q t \<and> nat (indexOf q t) < length q \<and> q ! nat (indexOf q t) = t
     \<and> t \<notin> set (take (nat (indexOf q t)) q)"
proof (induction q)
  case Nil
  then show ?case by simp
next
  case (Cons x q)
  show ?case
  proof (cases "x = t")
    case True
    then show ?thesis by simp
  next
    case False
    with Cons have IH: "0 \<le> indexOf q t" "nat (indexOf q t) < length q"
      "q ! nat (indexOf q t) = t" "t \<notin> set (take (nat (indexOf q t)) q)"
      by auto
    have n: "nat (indexOf q t + 1) = Suc (nat (indexOf q t))"
      using IH(1) by simp
    show ?thesis
      using False IH by (simp add: Let_def n)
  qed
qed

lemma splice1_absent: "splice1 (-1) q = butlast q"
  by (cases q rule: rev_cases) (auto simp: splice1_def Let_def butlast_conv_take nat_diff_distrib)

lemma remove1_take_drop:
  "n < length q \<Longrightarrow> q ! n = t \<Longrightarrow> t \<notin> set (take n q) \<Longrightarrow>
     remove1 t q = take n q @ drop (Suc n) q"
proof (induction q arbitrary: n)
  case Nil
  then show ?case by simp
next
  case (Cons x q)
  show ?case
  proof (cases n)
    case 0
    with Cons.prems show ?thesis by simp
  next
    case (Suc m)
    with Cons.prems have "x \<noteq> t" "m < length q" "q ! m = t" "t \<notin> set (take m q)"
      by auto
    with Cons.IH [of m] Suc show ?thesis by simp
  qed
qed

lemma splice1_present: "t \<in> set q \<Longrightarrow> splice1 (indexOf q t) q = remove1 t q"
proof -
  assume a: "t \<in> set q"
  note p = indexOf_present [OF a]
  have "min (indexOf q t) (int (length q)) = indexOf q t"
    using p by linarith
  then show ?thesis
    using p by (simp add: splice1_def Let_def remove1_take_drop [of "nat (indexOf q t)" q t])
qed

subsection \<open>What each operation leaves alone\<close>

lemma updTween_simps:
  "tweens (updTween t f w) = (tweens w)(t := f (tweens w t))"
  "tweenQueue (updTween t f w) = tweenQueue w"
  "filters (updTween t f w) = filters w"
  "formulas (updTween t f w) = formulas w"
  "trace (updTween t f w) = trace w"
  "nextPromise (updTween t f w) = nextPromise w"
  by (simp_all add: updTween_def)

lemma emit_simps:
  "tweens (emit e w) = tweens w"
  "tweenQueue (emit e w) = tweenQueue w"
  "filters (emit e w) = filters w"
  "formulas (emit e w) = formulas w"
  "trace (emit e w) = trace w @ [e]"
  "nextPromise (emit e w) = nextPromise w"
  by (simp_all add: emit_def)

lemma applyHooks_frame:
  "configured (applyHooks n fs tw) = configured tw"
  "attachment (applyHooks n fs tw) = attachment tw"
  "pausedAtTime (applyHooks n fs tw) = pausedAtTime tw"
  "delay (applyHooks n fs tw) = delay tw"
  "duration (applyHooks n fs tw) = duration tw"
  "promise (applyHooks n fs tw) = promise tw"
  "timestamp (applyHooks n fs tw) = timestamp tw"
  "isPaused (applyHooks n fs tw) = isPaused tw"
  "isTweening (applyHooks n fs tw) = isTweening tw"
  by (induction n fs tw rule: applyHooks.induct;
      simp add: setFilterArgs_def split: option.splits prod.splits)+

lemma applyFilter_simps:
  "tweens (applyFilter t n w) = (tweens w)(t := applyHooks n (filters w) (tweens w t))"
  "tweenQueue (applyFilter t n w) = tweenQueue w"
  "filters (applyFilter t n w) = filters w"
  "formulas (applyFilter t n w) = formulas w"
  "trace (applyFilter t n w) = trace w"
  "nextPromise (applyFilter t n w) = nextPromise w"
  by (simp_all add: applyFilter_def updTween_simps)


lemma stop_after:
  "tweenQueue (after (stop t g w)) = splice1 (indexOf (tweenQueue w) t) (tweenQueue w)"
  "u \<noteq> t \<Longrightarrow> tweens (after (stop t g w)) u = tweens w u"
  "\<not> isTweening (tweens (after (stop t g w)) t)"
  "\<not> isPaused (tweens (after (stop t g w)) t)"
  "filters (after (stop t g w)) = filters w"
  "formulas (after (stop t g w)) = formulas w"
  "nextPromise (after (stop t g w)) = nextPromise w"
  by (auto simp: after_def stop_def Let_def updTween_simps emit_simps applyFilter_simps
      applyHooks_frame split: option.splits sum.splits prod.splits)

lemma stop_frame:
  assumes "stop t g w = Inr w'"
  shows "tweenQueue w' = splice1 (indexOf (tweenQueue w) t) (tweenQueue w)"
    and "u \<noteq> t \<Longrightarrow> tweens w' u = tweens w u"
    and "\<not> isTweening (tweens w' t)" and "\<not> isPaused (tweens w' t)"
    and "filters w' = filters w" and "formulas w' = formulas w"
    and "nextPromise w' = nextPromise w"
  using stop_after [where t = t and g = g and w = w]
    stop_after(2) [where t = t and g = g and w = w and u = u] assms
  by (simp_all add: after_def)

lemma processTween_frame:
  assumes "processTween t now w = Inr w'"
  shows "u \<noteq> t \<Longrightarrow> tweens w' u = tweens w u"
    and "tweenQueue w' = tweenQueue w
         \<or> (tweenQueue w' = splice1 (indexOf (tweenQueue w) t) (tweenQueue w)
            \<and> \<not> isPlaying (tweens w' t))"
    and "filters w' = filters w" and "formulas w' = formulas w"
    and "nextPromise w' = nextPromise w"
proof -
  show "u \<noteq> t \<Longrightarrow> tweens w' u = tweens w u"
    using assms
    by (auto simp: processTween_def processTweenWith_def onlyLooks_def Let_def updTween_simps
        emit_simps applyFilter_simps
        dest!: stop_frame(2) [where u = u] split: option.splits if_splits sum.splits prod.splits)
  show "tweenQueue w' = tweenQueue w
         \<or> (tweenQueue w' = splice1 (indexOf (tweenQueue w) t) (tweenQueue w)
            \<and> \<not> isPlaying (tweens w' t))"
    using assms
    by (auto simp: processTween_def processTweenWith_def onlyLooks_def Let_def updTween_simps
        emit_simps applyFilter_simps isPlaying_def
        dest: stop_frame(1,3) split: option.splits if_splits sum.splits prod.splits)
  show "filters w' = filters w" "formulas w' = formulas w" "nextPromise w' = nextPromise w"
    using assms
    by (auto simp: processTween_def processTweenWith_def onlyLooks_def Let_def updTween_simps
        emit_simps applyFilter_simps
        dest: stop_frame(5,6,7) split: option.splits if_splits sum.splits prod.splits)
qed

subsection \<open>The scheduler loop\<close>

lemma tickAll_skip_stopped:
  "\<not> isPlaying (tweens w t) \<Longrightarrow> tickAll now xs w = tickAll now (filter (\<lambda>u. u \<noteq> t) xs) w"
proof (induction xs arbitrary: w)
  case Nil
  then show ?case by simp
next
  case (Cons x xs)
  show ?case
  proof (cases "x = t")
    case True
    with Cons show ?thesis by simp
  next
    case False
    show ?thesis
    proof (cases "isPlaying (tweens w x)")
      case False
      with Cons \<open>x \<noteq> t\<close> show ?thesis by simp
    next
      case True
      show ?thesis
      proof (cases "processTween x now w")
        case (Inl e)
        with True \<open>x \<noteq> t\<close> show ?thesis by simp
      next
        case (Inr w')
        have "tweens w' t = tweens w t"
          using processTween_frame(1) [OF Inr, of t] \<open>x \<noteq> t\<close> by simp
        with Cons.prems have "\<not> isPlaying (tweens w' t)" by simp
        from Cons.IH [OF this] True \<open>x \<noteq> t\<close> Inr show ?thesis by simp
      qed
    qed
  qed
qed

lemma filter_take_remove1:
  "n < length q \<Longrightarrow> q ! n = t \<Longrightarrow>
     filter (\<lambda>u. u \<noteq> t) (take n (remove1 t q)) = filter (\<lambda>u. u \<noteq> t) (take n q)"
proof (induction q arbitrary: n)
  case Nil
  then show ?case by simp
next
  case (Cons x q)
  show ?case
  proof (cases n)
    case 0
    then show ?thesis by simp
  next
    case (Suc m)
    show ?thesis
    proof (cases "x = t")
      case True
      from Cons.prems Suc have m: "m < length q" "q ! m = t" by auto
      have "take (Suc m) q = take m q @ [q ! m]"
        using m(1) by (simp add: take_Suc_conv_app_nth)
      with True Suc m show ?thesis by simp
    next
      case False
      from Cons.prems Suc have m: "m < length q" "q ! m = t" by auto
      from Cons.IH [OF m] False Suc show ?thesis by simp
    qed
  qed
qed

lemma processLoop_walk:
  "n \<le> length (tweenQueue w) \<Longrightarrow> processLoopWith onlyLooks n now w = tickAll now (rev (take n (tweenQueue w))) w"
proof (induction n arbitrary: w)
  case 0
  then show ?case by simp
next
  case (Suc n)
  let ?q = "tweenQueue w"
  let ?t = "?q ! n"
  from Suc.prems have n: "n < length ?q" by simp
  have tk: "rev (take (Suc n) ?q) = ?t # rev (take n ?q)"
    using n by (simp add: take_Suc_conv_app_nth)
  show ?case
  proof (cases "isPlaying (tweens w ?t)")
    case False
    with Suc.IH [of w] n tk show ?thesis by (simp add: Let_def)
  next
    case True
    show ?thesis
    proof (cases "processTween ?t now w")
      case (Inl e)
      with True n tk show ?thesis by (simp add: Let_def processTween_def)
    next
      case (Inr w')
      have mem: "?t \<in> set ?q" using n by simp
      have step: "processLoopWith onlyLooks (Suc n) now w = processLoopWith onlyLooks n now w'"
        using True n Inr by (simp add: Let_def processTween_def)
      have snap: "tickAll now (rev (take (Suc n) ?q)) w = tickAll now (rev (take n ?q)) w'"
        using True Inr tk by simp
      from processTween_frame(2) [OF Inr]
      consider (same) "tweenQueue w' = ?q"
        | (removed) "tweenQueue w' = remove1 ?t ?q" "\<not> isPlaying (tweens w' ?t)"
        using splice1_present [OF mem] by auto
      then show ?thesis
      proof cases
        case same
        with Suc.IH [of w'] n step snap show ?thesis by simp
      next
        case removed
        have len: "n \<le> length (tweenQueue w')"
          using removed(1) n mem by (simp add: length_remove1)
        have "processLoopWith onlyLooks n now w' = tickAll now (rev (take n (remove1 ?t ?q))) w'"
          using Suc.IH [OF len] removed(1) by simp
        also have "\<dots> = tickAll now (filter (\<lambda>u. u \<noteq> ?t) (rev (take n (remove1 ?t ?q)))) w'"
          by (rule tickAll_skip_stopped [OF removed(2)])
        also have "\<dots> = tickAll now (filter (\<lambda>u. u \<noteq> ?t) (rev (take n ?q))) w'"
          using filter_take_remove1 [OF n refl] by (simp add: rev_filter [symmetric])
        also have "\<dots> = tickAll now (rev (take n ?q)) w'"
          by (rule tickAll_skip_stopped [OF removed(2), symmetric])
        finally show ?thesis using step snap by simp
      qed
    qed
  qed
qed


lemma processQueue_walk: "processQueue now w = tickAll now (rev (tweenQueue w)) w"
  by (simp add: processQueue_def processQueueWith_def processLoop_walk)


subsection \<open>A step callback that stops its instance\<close>

text \<open>
  C9, what the code does. The loop reads \<open>now\<close> once and walks the live queue from the
  back. With callbacks that only look, the loop at 150 ticks instance 0, which ends and
  leaves the queue, and then instance 1, which moves to 7.5. With the callback of instance
  0 calling \<^verbatim>\<open>stop()\<close> on its last tick, the callback takes instance 0 out of the queue,
  the \<^verbatim>\<open>stop(true)\<close> of \<^verbatim>\<open>processTween\<close> then finds no entry and takes out the last
  one, which is instance 1, whose turn was still to come: the next round reads
  \<^verbatim>\<open>undefined\<close> and throws, and instance 1 has not been ticked.
\<close>

theorem processQueue_step_stops:
  "map_sum id tweenQueue twoStarted = Inr [1, 0]
   \<and> map_sum id (\<lambda>w. (tweenQueue w, currentState (tweens w 0), currentState (tweens w 1)))
       (andThen twoStarted (processQueue (lit 150)))
     = Inr ([1], [(''x'', lit 10)], [(''x'', lit (15 / 2))])
   \<and> map_sum
       (\<lambda>(e, w). (e, tweenQueue w, currentState (tweens w 0), currentState (tweens w 1),
                  isPlaying (tweens w 1), trace w))
       id
       (andThen twoStarted (processQueueWith stopsAtEnd (lit 150)))
     = Inl (TypeError, [], [(''x'', lit 10)], [(''x'', lit 0)], True,
            [StartCalled 0 [(''x'', lit 0)] None, StartCalled 1 [(''x'', lit 0)] None,
             StepCalled 0 [(''x'', lit 10)] None (lit 100),
             Rejected 0 [(''x'', lit 0)] None, Resolved 0 [(''x'', lit 10)] None])"
proof -
  have h: "isDouble (15 / 2)" "isDouble (3 / 4)"
    using isDouble_dyadic [of 15 "- 1"] isDouble_dyadic [of 3 "- 2"] by (simp_all add: pow2_def)
  show ?thesis
    using h
    by (simp add: twoStarted_def startedWith_def longConfig_def stopsAtEnd_def scenario_defs
        lit_eval)
qed

subsection \<open>Starting twice, resuming twice\<close>

text \<open>
  C4, what the code does. \<open>tween\<close> on an instance whose \<^verbatim>\<open>_isTweening\<close> flag is set
  changes nothing: no configuration, no entry added to the queue. Its value is the
  instance itself (\<^verbatim>\<open>return this\<close>), not the promise that the first call returned.
\<close>

theorem tween_while_tweening:
  "isTweening (tweens w t) \<Longrightarrow> tween t config now w = Inr (RetThis t, w)"
  by (simp add: tween_def)

text \<open>
  The first call returns promise 0; the second call, with or without a configuration,
  returns the instance.
\<close>

theorem tween_while_tweening_witness:
  "case tween 0 (Some exampleConfig) 0 initialWorld of
     Inl e \<Rightarrow> False
   | Inr (r, w) \<Rightarrow>
       r = RetPromise (Some 0) \<and> promise (tweens w 0) = Some 0 \<and> isPlaying (tweens w 0)
       \<and> tween 0 (Some exampleConfig) (lit 10) w = Inr (RetThis 0, w)
       \<and> tween 0 None (lit 10) w = Inr (RetThis 0, w)"
proof -
  obtain w where w: "tween 0 (Some exampleConfig) 0 initialWorld = Inr (RetPromise (Some 0), w)"
    and p: "promise (tweens w 0) = Some 0" and i: "isTweening (tweens w 0)"
    and q: "isPlaying (tweens w 0)"
    by (simp add: scenario_defs)
  from tween_while_tweening [OF i] w p q show ?thesis
    by simp
qed

text \<open>
  C3, what the code does. \<open>resume\<close> puts the instance at the front of the queue whatever
  the queue holds: an instance that is queued already is queued twice afterwards.
\<close>

theorem resume_enqueues_again:
  "tweenQueue (snd (resume t now w)) = t # tweenQueue w
   \<and> (t \<in> set (tweenQueue w) \<longrightarrow> \<not> distinct (tweenQueue (snd (resume t now w))))"
  by (simp add: resume_def Let_def updTween_simps)

text \<open>
  Start, pause at 30, resume at 40: the instance is in the queue twice. A stop then takes
  out one entry, and the stopped instance stays queued.
\<close>

theorem resume_enqueues_again_witness:
  "case started 0 0 initialWorld of
     Inl e \<Rightarrow> False
   | Inr w \<Rightarrow>
       tweenQueue w = [0]
       \<and> tweenQueue (snd (resume 0 (lit 40) (pause 0 (lit 30) w))) = [0, 0]
       \<and> map_sum id (\<lambda>w'. (tweenQueue w', isTweening (tweens w' 0)))
            (stop 0 False (snd (resume 0 (lit 40) (pause 0 (lit 30) w)))) = Inr ([0], False)"
proof -
  obtain w where w: "started 0 0 initialWorld = Inr w"
    and q: "tweenQueue w = [0]"
    and s: "map_sum id (\<lambda>w'. (tweenQueue w', isTweening (tweens w' 0)))
            (stop 0 False (snd (resume 0 (lit 40) (pause 0 (lit 30) w)))) = Inr ([0], False)"
    by (simp add: scenario_defs)
  have "tweenQueue (pause 0 (lit 30) w) = [0]"
    using q by (simp add: pause_def updTween_simps)
  with resume_enqueues_again [of 0 "lit 40" "pause 0 (lit 30) w"] w q s show ?thesis
    by simp
qed

subsection \<open>Stopping an instance that is not queued\<close>

text \<open>
  C10. \<open>stop\<close> on an instance that is not in the queue takes the last entry out of the
  queue, whichever instance that is, and leaves the other entries as they are, with or
  without the jump to the end, and whether the call returns or throws: an instance that was
  never configured has no \<^verbatim>\<open>_resolve\<close> and no \<^verbatim>\<open>_reject\<close>, and the call throws after
  the queue has been spliced. The entry taken out is not the instance's own, and it is
  the one that was queued first, since \<open>resume\<close> puts an instance at the front.
\<close>

theorem stop_not_queued:
  assumes "t \<notin> set (tweenQueue w)"
  shows "tweenQueue (after (stop t gotoEnd w)) = butlast (tweenQueue w)
     \<and> (tweenQueue w \<noteq> [] \<longrightarrow>
          last (tweenQueue w) \<noteq> t
          \<and> tweenQueue w = tweenQueue (after (stop t gotoEnd w)) @ [last (tweenQueue w)])"
proof -
  have q: "tweenQueue (after (stop t gotoEnd w)) = butlast (tweenQueue w)"
    using assms by (simp add: stop_after(1) indexOf_absent splice1_absent)
  have "tweenQueue w \<noteq> [] \<Longrightarrow> last (tweenQueue w) \<noteq> t"
    using assms last_in_set by metis
  with q show ?thesis by simp
qed

text \<open>
  The two instances of the scenario are queued, instance 0 first. \<open>stop\<close> on instance 2,
  which was never configured, throws, and it has taken instance 0 out of the queue:
  instance 0 is still flagged as playing. \<open>stop\<close> on instance 0 and then once more on
  instance 0 empties the queue: instance 1 is still flagged as playing.
\<close>

theorem stop_not_queued_witness:
  "case twoStarted of
     Inl e \<Rightarrow> False
   | Inr w \<Rightarrow>
       tweenQueue w = [1, 0] \<and> 2 \<notin> set (tweenQueue w) \<and> promise (tweens w 2) = None
       \<and> map_sum fst id (stop 2 False w) = Inl TypeError
       \<and> tweenQueue (after (stop 2 False w)) = [1]
       \<and> butlast (tweenQueue w) = [1] \<and> last (tweenQueue w) = 0
       \<and> isPlaying (tweens (after (stop 2 False w)) 0)
       \<and> map_sum fst id (stop 2 True w) = Inl TypeError
       \<and> tweenQueue (after (stop 2 True w)) = [1]
       \<and> (case stop 0 False w of
             Inl e \<Rightarrow> False
           | Inr v \<Rightarrow>
               tweenQueue v = [1] \<and> 0 \<notin> set (tweenQueue v)
               \<and> (\<exists>v'. stop 0 False v = Inr v') \<and> tweenQueue (after (stop 0 False v)) = []
               \<and> isPlaying (tweens (after (stop 0 False v)) 1))"
proof -
  obtain w where w: "twoStarted = Inr w"
    and q: "tweenQueue w = [1, 0]" and p: "promise (tweens w 2) = None"
    and s: "map_sum fst id (stop 2 False w) = Inl TypeError"
      "map_sum fst id (stop 2 True w) = Inl TypeError"
    and i: "isPlaying (tweens (after (stop 2 False w)) 0)"
    and c: "case stop 0 False w of
              Inl e \<Rightarrow> False
            | Inr v \<Rightarrow>
                tweenQueue v = [1] \<and> (\<exists>v'. stop 0 False v = Inr v')
                \<and> isPlaying (tweens (after (stop 0 False v)) 1)"
    by (simp add: twoStarted_def startedWith_def longConfig_def scenario_defs after_def lit_eval)
  from c obtain v where v: "stop 0 False w = Inr v"
    and qv: "tweenQueue v = [1]" and sv: "\<exists>v'. stop 0 False v = Inr v'"
    and iv: "isPlaying (tweens (after (stop 0 False v)) 1)"
    by (cases "stop 0 False w") auto
  have n: "2 \<notin> set (tweenQueue w)" using q by simp
  have m: "0 \<notin> set (tweenQueue v)" using qv by simp
  note a = stop_not_queued [OF n, of False, THEN conjunct1]
    stop_not_queued [OF n, of True, THEN conjunct1]
    stop_not_queued [OF m, of False, THEN conjunct1]
  from a q qv v p s i sv iv show ?thesis unfolding w by simp
qed


subsection \<open>Interpolating a state\<close>

lemma tweenLoop_ok:
  "\<forall>k \<in> fst ` set s. g k = Inr (h k) \<Longrightarrow> tweenLoop g s = Inr (map (\<lambda>(k, v). (k, h k)) s)"
  by (induction s) auto

lemma tweenLoop_keys: "tweenLoop g s = Inr s' \<Longrightarrow> map fst s' = map fst s"
  by (induction s arbitrary: s') (auto split: sum.splits prod.splits)

lemma tweenProps_ok:
  assumes "curvesSatisfy (\<lambda>f. True) fm tw"
  shows "tweenProps fm forPosition (currentState tw) (originalState tw) (targetState tw) d ts (easing tw)
       = Inr (map (\<lambda>(k, v). (k, valueAt fm tw (normalizedPosition forPosition ts d) k))
                (currentState tw))"
  unfolding tweenProps_def
proof (rule tweenLoop_ok, rule ballI)
  fix k assume "k \<in> fst ` set (currentState tw)"
  then have k: "k \<in> set (tracked tw)" by (simp add: tracked_def)
  from assms k obtain f where f: "easingFn fm (map_of (easing tw) k) = Some f"
    by (auto simp: curvesSatisfy_def split: option.splits)
  show "tweenKey fm (originalState tw) (targetState tw) (easing tw)
          (normalizedPosition forPosition ts d) k
        = Inr (valueAt fm tw (normalizedPosition forPosition ts d) k)"
    using f by (simp add: tweenKey_def valueAt_def)
qed

lemma applyFilter_none: "filters w = [] \<Longrightarrow> applyFilter t n w = w"
  by (simp add: applyFilter_def updTween_def)

lemma hasEndpoints_present:
  assumes "hasEndpoints tw" and "k \<in> set (tracked tw)"
  obtains x y where "map_of (originalState tw) k = Some (Num x)"
    and "map_of (targetState tw) k = Some (Num y)"
proof -
  from assms have a: "toNumber (map_of (originalState tw) k) \<noteq> NaN"
    and b: "toNumber (map_of (targetState tw) k) \<noteq> NaN"
    by (simp_all add: hasEndpoints_def)
  from a obtain x where "map_of (originalState tw) k = Some (Num x)"
    by (cases "map_of (originalState tw) k"; simp) (metis number.exhaust)
  moreover from b obtain y where "map_of (targetState tw) k = Some (Num y)"
    by (cases "map_of (targetState tw) k"; simp) (metis number.exhaust)
  ultimately show thesis by (rule that)
qed

lemma number_one_not_less_zero [simp]: "\<not> (1::number) < 0"
  by (simp add: one_number_def zero_number_def less_double.rep_eq)

lemma position_one [simp]: "normalizedPosition 1 0 1 = 1"
  by (simp add: normalizedPosition_def)

lemma curvesSatisfy_weaken: "curvesSatisfy P fm tw \<Longrightarrow> curvesSatisfy (\<lambda>f. True) fm tw"
  by (auto simp: curvesSatisfy_def split: option.splits)

lemma stop_true_result:
  assumes nf: "filters w = []" and p: "promise (tweens w t) = Some p"
    and cs: "curvesSatisfy (\<lambda>f. True) (formulas w) (tweens w t)"
  shows "stop t True w =
     Inr (emit (Resolved p (map (\<lambda>(k, v). (k, valueAt (formulas w) (tweens w t) 1 k))
                              (currentState (tweens w t))) (attachment (tweens w t)))
           (w\<lparr>tweens := (tweens w)
                 (t := (tweens w t)\<lparr>isTweening := False, isPaused := False,
                      currentState := map (\<lambda>(k, v). (k, valueAt (formulas w) (tweens w t) 1 k))
                                       (currentState (tweens w t))\<rparr>),
               tweenQueue := splice1 (indexOf (tweenQueue w) t) (tweenQueue w)\<rparr>))"
proof -
  let ?tw = "(tweens w t)\<lparr>isTweening := False, isPaused := False\<rparr>"
  have cs': "curvesSatisfy (\<lambda>f. True) (formulas w) ?tw"
    using cs by (simp add: curvesSatisfy_def tracked_def)
  have va: "valueAt (formulas w) ?tw = valueAt (formulas w) (tweens w t)"
    by (intro ext) (simp add: valueAt_def)
  from tweenProps_ok [OF cs', of 1 1 0] va
  have tp: "tweenProps (formulas w) 1 (currentState (tweens w t)) (originalState (tweens w t))
       (targetState (tweens w t)) 1 0 (easing (tweens w t))
       = Inr (map (\<lambda>(k, v). (k, valueAt (formulas w) (tweens w t) 1 k)) (currentState (tweens w t)))"
    by simp
  show ?thesis
    using p nf tp
    by (simp add: stop_def Let_def applyFilter_none updTween_simps emit_simps updTween_def emit_def)
qed

lemma stop_true_atJump:
  assumes nf: "filters w = []" and p: "promise (tweens w t) = Some p"
    and cs: "curvesSatisfy (\<lambda>f. f 1 = 1) (formulas w) (tweens w t)"
  shows "\<exists>w'. stop t True w = Inr w' \<and> atJump (tweens w' t)
           \<and> (exactDiffs (tweens w t) \<longrightarrow> atTarget (tweens w' t))
           \<and> tracked (tweens w' t) = tracked (tweens w t)
           \<and> originalState (tweens w' t) = originalState (tweens w t)
           \<and> targetState (tweens w' t) = targetState (tweens w t)
           \<and> trace w' = trace w @ [Resolved p (currentState (tweens w' t)) (attachment (tweens w t))]"
proof -
  let ?tw = "tweens w t"
  let ?c = "map (\<lambda>(k, v). (k, valueAt (formulas w) ?tw 1 k)) (currentState ?tw)"
  let ?a = "\<lambda>k. toNumber (map_of (originalState ?tw) k)"
  let ?b = "\<lambda>k. toNumber (map_of (targetState ?tw) k)"
  have keys: "map fst ?c = tracked ?tw"
    by (simp add: tracked_def comp_def case_prod_unfold)
  have v: "map_of ?c k = Some (?a k + (?b k - ?a k))" if k: "k \<in> set (tracked ?tw)" for k
  proof -
    from k have "k \<in> fst ` set (currentState ?tw)" by (simp add: tracked_def)
    then have m: "map_of ?c k = Some (valueAt (formulas w) ?tw 1 k)"
      by (simp add: map_of_const_keys)
    from cs k obtain f where "easingFn (formulas w) (map_of (easing ?tw) k) = Some f" "f 1 = 1"
      by (auto simp: curvesSatisfy_def split: option.splits)
    then show ?thesis
      unfolding m by (simp add: valueAt_def tweenProp_def)
  qed
  have at: "map_of ?c k = map_of (targetState ?tw) k"
    if k: "k \<in> set (tracked ?tw)" and e: "exactDiffs ?tw" for k
  proof -
    from e k have x: "exactDiff (?a k) (?b k)" by (simp add: exactDiffs_def)
    then have "?b k \<noteq> NaN" by (auto simp: exactDiff_def split: number.splits)
    then have "map_of (targetState ?tw) k = Some (?b k)"
      by (cases "map_of (targetState ?tw) k") simp_all
    with v [OF k] exactDiff_round_trip [OF x] show ?thesis by simp
  qed
  show ?thesis
    unfolding stop_true_result [OF nf p curvesSatisfy_weaken [OF cs]]
    using keys v at by (simp add: atJump_def atTarget_def tracked_def emit_def)
qed

subsection \<open>Completion\<close>






subsection \<open>A tick before the end\<close>

lemma position_in_delay [simp]: "normalizedPosition 1 1 1 = 0"
  by (simp add: normalizedPosition_def)

lemma processTween_running_result:
  assumes nf: "filters w = []" and cf: "configured (tweens w t)"
    and ts: "timestamp (tweens w t) = Some ts"
    and run: "now < ts + delay (tweens w t) + duration (tweens w t)"
    and cs: "curvesSatisfy (\<lambda>f. True) (formulas w) (tweens w t)"
  shows "processTween t now w =
     Inr (emit (StepCalled t
                  (map (\<lambda>(k, v). (k, valueAt (formulas w) (tweens w t)
                          (if now < ts + delay (tweens w t) then 0
                           else (now - (ts + delay (tweens w t))) / duration (tweens w t)) k))
                     (currentState (tweens w t)))
                  (attachment (tweens w t))
                  (duration (tweens w t)
                   - (ts + delay (tweens w t) + duration (tweens w t) - now)))
           (updTween t
              (\<lambda>tw. tw\<lparr>currentState :=
                 map (\<lambda>(k, v). (k, valueAt (formulas w) (tweens w t)
                          (if now < ts + delay (tweens w t) then 0
                           else (now - (ts + delay (tweens w t))) / duration (tweens w t)) k))
                     (currentState (tweens w t))\<rparr>) w))"
proof -
  let ?tw = "tweens w t"
  let ?E = "ts + delay ?tw + duration ?tw"
  let ?p = "if now < ts + delay ?tw then 0 else (now - (ts + delay ?tw)) / duration ?tw"
  have m: "jsMin now ?E = now" using run by (rule jsMin_less)
  have ne: "\<not> ?E \<le> now" using number_lessD [OF run] by simp
  have np: "normalizedPosition (if now < ts + delay ?tw then 1 else now)
              (if now < ts + delay ?tw then 1 else ts + delay ?tw)
              (if now < ts + delay ?tw then 1 else duration ?tw) = ?p"
    by (simp add: normalizedPosition_def)
  have tp: "tweenProps (formulas w) (if now < ts + delay ?tw then 1 else now)
        (currentState ?tw) (originalState ?tw) (targetState ?tw)
        (if now < ts + delay ?tw then 1 else duration ?tw)
        (if now < ts + delay ?tw then 1 else ts + delay ?tw) (easing ?tw)
      = Inr (map (\<lambda>(k, v). (k, valueAt (formulas w) ?tw ?p k)) (currentState ?tw))"
    unfolding tweenProps_ok [OF cs] np ..
  show ?thesis
    using cf ts ne nf tp
    by (simp add: processTween_def processTweenWith_def onlyLooks_def Let_def m applyFilter_none
        updTween_simps emit_simps cong: if_cong)
qed

lemma valueAt_interpolated:
  assumes "hasEndpoints tw" and "curvesSatisfy (\<lambda>f. True) fm tw"
    and "currentState tw' = map (\<lambda>(k, v). (k, valueAt fm tw p k)) (currentState tw)"
    and "originalState tw' = originalState tw" and "targetState tw' = targetState tw"
    and "easing tw' = easing tw"
  shows "interpolatedAt fm p tw'"
  unfolding interpolatedAt_def
proof
  fix k assume "k \<in> set (tracked tw')"
  then have k: "k \<in> set (tracked tw)" "k \<in> fst ` set (currentState tw)"
    using assms(3) by (simp_all add: tracked_def comp_def case_prod_unfold)
  from hasEndpoints_present [OF assms(1) k(1)]
  obtain x y where ab: "map_of (originalState tw) k = Some (Num x)"
     "map_of (targetState tw) k = Some (Num y)" .
  from assms(2) k obtain f where f: "easingFn fm (map_of (easing tw) k) = Some f"
    by (auto simp: curvesSatisfy_def split: option.splits)
  have "map_of (currentState tw') k = Some (tweenProp (Num x) (Num y) f p)"
    using k ab f assms(3) by (simp add: map_of_const_keys valueAt_def)
  then show "case (map_of (originalState tw') k, map_of (targetState tw') k,
              easingFn fm (map_of (easing tw') k)) of
          (Some a, Some b, Some f) \<Rightarrow>
            map_of (currentState tw') k = Some (tweenProp a b f p)
        | _ \<Rightarrow> False"
    using ab f assms(4,5,6) by simp
qed

lemma interpolatedAt_origin:
  assumes "interpolatedAt fm 0 tw" and "curvesSatisfy (\<lambda>f. f 0 = 0) fm tw"
    and "hasEndpoints tw"
  shows "atOrigin tw"
  unfolding atOrigin_def
proof
  fix k assume k: "k \<in> set (tracked tw)"
  from assms(2) k obtain f where f: "easingFn fm (map_of (easing tw) k) = Some f" "f 0 = 0"
    by (auto simp: curvesSatisfy_def split: option.splits)
  from hasEndpoints_present [OF assms(3) k]
  obtain x y where ab: "map_of (originalState tw) k = Some (Num x)"
     "map_of (targetState tw) k = Some (Num y)" .
  from assms(1) k f ab have "map_of (currentState tw) k = Some (tweenProp (Num x) (Num y) f 0)"
    by (auto simp: interpolatedAt_def dest!: bspec [where x = k])
  then show "map_of (currentState tw) k = map_of (originalState tw) k"
    using f ab by (simp add: tweenProp_def)
qed





subsection \<open>Seek\<close>

lemma stop_effect:
  assumes "stop t g w = Inr w'"
  shows "timestamp (tweens w' t) = timestamp (tweens w t)"
    and "\<exists>evs. trace w' = trace w @ evs"
  using assms
  by (auto simp: stop_def Let_def updTween_simps emit_simps applyFilter_simps applyHooks_frame
      split: option.splits sum.splits prod.splits if_splits)

lemma processTween_effect:
  assumes "processTween t now w = Inr w'"
  shows "timestamp (tweens w' t) = timestamp (tweens w t)"
    and "\<exists>evs. trace w' = trace w @ evs \<and> stepCalledIn t evs"
proof -
  let ?tw = "tweens w t"
  let ?ts = "toNumber (timestamp ?tw)"
  let ?E = "?ts + delay ?tw + duration ?tw"
  let ?off = "duration ?tw - (?E - jsMin now ?E)"
  from assms have c: "configured ?tw"
    by (auto simp: processTween_def processTweenWith_def Let_def split: if_splits)
  have "timestamp (tweens w' t) = timestamp (tweens w t)
     \<and> (\<exists>evs. trace w' = trace w @ evs \<and> stepCalledIn t evs)"
  proof (cases "?E \<le> jsMin now ?E")
    case True
    let ?w = "emit (StepCalled t (targetState ?tw) (attachment ?tw) ?off) w"
    from assms c True have s: "stop t True ?w = Inr w'"
      by (simp add: processTween_def processTweenWith_def onlyLooks_def Let_def)
    from stop_effect [OF s] obtain evs where
      "timestamp (tweens w' t) = timestamp ?tw" "trace w' = trace ?w @ evs"
      by (auto simp: emit_simps)
    then show ?thesis by (simp add: emit_simps)
  next
    case False
    with assms c show ?thesis
      by (auto simp: processTween_def processTweenWith_def onlyLooks_def Let_def updTween_simps
          emit_simps applyFilter_simps applyHooks_frame
          split: sum.splits prod.splits)
  qed
  then show "timestamp (tweens w' t) = timestamp (tweens w t)"
    and "\<exists>evs. trace w' = trace w @ evs \<and> stepCalledIn t evs"
    by blast+
qed

lemma processTween_total:
  assumes "filters w = []" and "configured (tweens w t)" and "promise (tweens w t) = Some p"
    and "curvesSatisfy (\<lambda>f. True) (formulas w) (tweens w t)"
  shows "\<exists>w'. processTween t now w = Inr w'"
proof -
  let ?tw = "tweens w t"
  let ?ts = "toNumber (timestamp ?tw)"
  let ?E = "?ts + delay ?tw + duration ?tw"
  let ?off = "duration ?tw - (?E - jsMin now ?E)"
  show ?thesis
  proof (cases "?E \<le> jsMin now ?E")
    case True
    let ?w = "emit (StepCalled t (targetState ?tw) (attachment ?tw) ?off) w"
    have "processTween t now w = stop t True ?w"
      using True assms(2)
      by (simp add: processTween_def processTweenWith_def onlyLooks_def Let_def)
    moreover have "\<exists>w'. stop t True ?w = Inr w'"
      using stop_true_result [of ?w t p] assms by (simp add: emit_simps)
    ultimately show ?thesis by simp
  next
    case False
    let ?d = "jsMin now ?E < ?ts + delay ?tw"
    have "\<exists>c. tweenProps (formulas w) (if ?d then 1 else jsMin now ?E)
        (currentState ?tw) (originalState ?tw) (targetState ?tw)
        (if ?d then 1 else duration ?tw)
        (if ?d then 1 else ?ts + delay ?tw) (easing ?tw) = Inr c"
      unfolding tweenProps_ok [OF assms(4)] by simp
    then obtain c where "tweenProps (formulas w) (if ?d then 1 else jsMin now ?E)
        (currentState ?tw) (originalState ?tw) (targetState ?tw)
        (if ?d then 1 else duration ?tw)
        (if ?d then 1 else ?ts + delay ?tw) (easing ?tw) = Inr c" ..
    then show ?thesis
      using False assms(1,2)
      by (simp add: processTween_def processTweenWith_def onlyLooks_def Let_def
          applyFilter_none cong: if_cong)
  qed
qed

lemma seek_guard:
  "(toNumber (timestamp tw) + max ms 0 = 0) = seekReturnsEarly tw ms"
  by (cases "timestamp tw") (simp_all add: seekReturnsEarly_def)

lemma seek_not_playing:
  assumes g: "\<not> seekReturnsEarly (tweens w t) ms" and np: "\<not> isPlaying (tweens w t)"
  shows "seek t now ms w =
           andThen
             (processTween t now
                (updTween t (\<lambda>tw. tw\<lparr>timestamp := Some (now - max ms 0), isTweening := True,
                                     isPaused := False\<rparr>) w))
             (\<lambda>w2. Inr (pause t now w2))"
  using g np
  by (simp add: seek_def seek_guard jsMax_zero Let_def andThen_def updTween_def isPlaying_def
      split: option.splits sum.splits)

text \<open>
  C5, as the code has it. \<open>seek\<close> clamps a negative argument to 0. It returns at once,
  with nothing changed, when \<open>timestamp + ms = 0\<close>. Otherwise it sets the timestamp to
  \<open>now - ms\<close>; for a playing instance that is all. For an instance that is not playing it
  sets the flags to playing, runs one tick at \<open>now\<close> and pauses: when it returns, the
  timestamp is \<open>now - ms\<close>, the instance is not playing, it is paused at \<open>now\<close>, and the step
  callback has been called. It returns whenever the instance is configured, its tracked
  keys have start values, destinations and curves, and no filter is registered.
\<close>

theorem seek_behaviour:
  "seek t now ms w = seek t now (max ms 0) w
   \<and> (seekReturnsEarly (tweens w t) ms \<longrightarrow> seek t now ms w = Inr w)
   \<and> (\<not> seekReturnsEarly (tweens w t) ms \<and> isPlaying (tweens w t) \<longrightarrow>
        seek t now ms w = Inr (updTween t (\<lambda>tw. tw\<lparr>timestamp := Some (now - max ms 0)\<rparr>) w))
   \<and> (\<not> seekReturnsEarly (tweens w t) ms \<and> \<not> isPlaying (tweens w t) \<longrightarrow>
        seek t now ms w =
          andThen
            (processTween t now
               (updTween t (\<lambda>tw. tw\<lparr>timestamp := Some (now - max ms 0), isTweening := True,
                                    isPaused := False\<rparr>) w))
            (\<lambda>w2. Inr (pause t now w2))
        \<and> (\<forall>w'. seek t now ms w = Inr w' \<longrightarrow>
              timestamp (tweens w' t) = Some (now - max ms 0)
              \<and> \<not> isPlaying (tweens w' t)
              \<and> pausedAtTime (tweens w' t) = Some now
              \<and> (\<exists>evs. trace w' = trace w @ evs \<and> stepCalledIn t evs))
        \<and> (filters w = [] \<and> configured (tweens w t) \<and> promise (tweens w t) \<noteq> None
            \<and> hasEndpoints (tweens w t)
            \<and> curvesSatisfy (\<lambda>f. True) (formulas w) (tweens w t) \<longrightarrow>
            (\<exists>w'. seek t now ms w = Inr w')))"
proof (intro conjI impI allI)
  show "seek t now ms w = seek t now (max ms 0) w"
    by (simp add: seek_def jsMax_zero)
next
  assume "seekReturnsEarly (tweens w t) ms"
  then show "seek t now ms w = Inr w"
    by (simp add: seek_def jsMax_zero seek_guard)
next
  assume "\<not> seekReturnsEarly (tweens w t) ms \<and> isPlaying (tweens w t)"
  then show "seek t now ms w = Inr (updTween t (\<lambda>tw. tw\<lparr>timestamp := Some (now - max ms 0)\<rparr>) w)"
    by (simp add: seek_def seek_guard jsMax_zero Let_def updTween_simps isPlaying_def)
next
  let ?w1 = "updTween t (\<lambda>tw. tw\<lparr>timestamp := Some (now - max ms 0), isTweening := True,
                                    isPaused := False\<rparr>) w"
  assume a: "\<not> seekReturnsEarly (tweens w t) ms \<and> \<not> isPlaying (tweens w t)"
  then have eq: "seek t now ms w = andThen (processTween t now ?w1) (\<lambda>w2. Inr (pause t now w2))"
    by (simp add: seek_not_playing)
  show "seek t now ms w = andThen (processTween t now ?w1) (\<lambda>w2. Inr (pause t now w2))"
    by (rule eq)
  {
    fix w' assume r: "seek t now ms w = Inr w'"
    with eq obtain w2 where p: "processTween t now ?w1 = Inr w2" and w': "w' = pause t now w2"
      by (auto simp: andThen_def split: sum.splits)
    from processTween_effect [OF p]
    have ts: "timestamp (tweens w2 t) = Some (now - max ms 0)"
      and tr: "\<exists>evs. trace w2 = trace w @ evs \<and> stepCalledIn t evs"
      by (simp_all add: updTween_simps)
    show "timestamp (tweens w' t) = Some (now - max ms 0)"
      using ts by (simp add: w' pause_def updTween_simps)
    show "\<not> isPlaying (tweens w' t)"
      by (simp add: w' pause_def updTween_simps isPlaying_def)
    show "pausedAtTime (tweens w' t) = Some now"
      by (simp add: w' pause_def updTween_simps)
    show "\<exists>evs. trace w' = trace w @ evs \<and> stepCalledIn t evs"
      using tr by (simp add: w' pause_def updTween_simps)
  }
  assume h: "filters w = [] \<and> configured (tweens w t) \<and> promise (tweens w t) \<noteq> None
            \<and> hasEndpoints (tweens w t)
            \<and> curvesSatisfy (\<lambda>f. True) (formulas w) (tweens w t)"
  then obtain p where p: "promise (tweens w t) = Some p" by auto
  have "\<exists>w2. processTween t now ?w1 = Inr w2"
    by (rule processTween_total [where p = p])
       (use h p in \<open>simp_all add: updTween_simps curvesSatisfy_def tracked_def\<close>)
  then show "\<exists>w'. seek t now ms w = Inr w'"
    unfolding eq by (auto simp: andThen_def)
qed


text \<open>
  The scenario started at 1000: a seek to 30 while it plays; a seek to 50 at 1060 after a
  pause at 1030. And the scenario started at 0: a seek to -5 returns early.
\<close>

theorem seek_behaviour_witness:
  "(case started 0 (lit 1000) initialWorld of
      Inl e \<Rightarrow> False
    | Inr w \<Rightarrow>
        \<not> seekReturnsEarly (tweens w 0) (lit 30) \<and> isPlaying (tweens w 0)
        \<and> seek 0 (lit 1050) (lit 30) w
            = Inr (updTween 0 (\<lambda>tw. tw\<lparr>timestamp := Some (lit 1050 - max (lit 30) 0)\<rparr>) w)
        \<and> \<not> seekReturnsEarly (tweens (pause 0 (lit 1030) w) 0) (lit 50)
        \<and> \<not> isPlaying (tweens (pause 0 (lit 1030) w) 0)
        \<and> (\<exists>w'. seek 0 (lit 1060) (lit 50) (pause 0 (lit 1030) w) = Inr w'
               \<and> timestamp (tweens w' 0) = Some (lit 1060 - max (lit 50) 0)
               \<and> \<not> isPlaying (tweens w' 0)
               \<and> pausedAtTime (tweens w' 0) = Some (lit 1060)
               \<and> currentState (tweens w' 0) = [(''x'', lit 5)]))
   \<and> (case started 0 0 initialWorld of
        Inl e \<Rightarrow> False
      | Inr v \<Rightarrow>
          seekReturnsEarly (tweens v 0) (lit (- 5)) \<and> seek 0 (lit 50) (lit (- 5)) v = Inr v
          \<and> seek 0 (lit 50) (lit (- 5)) v = seek 0 (lit 50) (max (lit (- 5)) 0) v)"
proof -
  obtain w where w: "started 0 (lit 1000) initialWorld = Inr w"
    and a: "\<not> seekReturnsEarly (tweens w 0) (lit 30) \<and> isPlaying (tweens w 0)"
    and b: "\<not> seekReturnsEarly (tweens (pause 0 (lit 1030) w) 0) (lit 50)
            \<and> \<not> isPlaying (tweens (pause 0 (lit 1030) w) 0)"
    and h: "filters (pause 0 (lit 1030) w) = [] \<and> configured (tweens (pause 0 (lit 1030) w) 0)
            \<and> promise (tweens (pause 0 (lit 1030) w) 0) \<noteq> None
            \<and> hasEndpoints (tweens (pause 0 (lit 1030) w) 0)
            \<and> curvesSatisfy (\<lambda>f. True) (formulas (pause 0 (lit 1030) w))
                 (tweens (pause 0 (lit 1030) w) 0)"
    and c: "map_sum id (\<lambda>w'. currentState (tweens w' 0))
              (seek 0 (lit 1060) (lit 50) (pause 0 (lit 1030) w))
              = Inr [(''x'', lit 5)]"
    by (simp add: scenario_defs condition_defs seekReturnsEarly_def lit_eval)
  obtain v where v: "started 0 0 initialWorld = Inr v"
    and e: "seekReturnsEarly (tweens v 0) (lit (- 5))"
    by (simp add: scenario_defs seekReturnsEarly_def lit_eval)
  note s1 = seek_behaviour [of 0 "lit 1050" "lit 30" w]
  note s2 = seek_behaviour [of 0 "lit 1060" "lit 50" "pause 0 (lit 1030) w"]
  note s3 = seek_behaviour [of 0 "lit 50" "lit (- 5)" v]
  from s1 a have r1: "seek 0 (lit 1050) (lit 30) w
      = Inr (updTween 0 (\<lambda>tw. tw\<lparr>timestamp := Some (lit 1050 - max (lit 30) 0)\<rparr>) w)"
    by blast
  from s2 b h obtain w' where r2: "seek 0 (lit 1060) (lit 50) (pause 0 (lit 1030) w) = Inr w'"
    by blast
  with s2 b have r3: "timestamp (tweens w' 0) = Some (lit 1060 - max (lit 50) 0)"
    "\<not> isPlaying (tweens w' 0)" "pausedAtTime (tweens w' 0) = Some (lit 1060)"
    by blast+
  from s3 e have r4: "seek 0 (lit 50) (lit (- 5)) v = Inr v"
    "seek 0 (lit 50) (lit (- 5)) v = seek 0 (lit 50) (max (lit (- 5)) 0) v"
    by blast+
  have r5: "currentState (tweens w' 0) = [(''x'', lit 5)]"
    using c r2 by simp
  show ?thesis
    unfolding w v using a b e r1 r2 r3 r4 r5 by simp
qed

text \<open>
  C5 as stated fails in both directions. Started at 1000 and paused at 1030, a seek to 50
  at 1050 would leave the timestamp at 1000, and it runs a tick: the current state moves
  from 0 to 5 and the step callback is called. Started at 0, a seek to 0 at 50 would move
  the timestamp to 50, and it returns with nothing changed.
\<close>

theorem seek_guard_is_not_unchanged_timestamp:
  "map_sum id (\<lambda>w. (timestamp (tweens w 0), currentState (tweens w 0), trace w))
     (andThen (started 0 (lit 1000) initialWorld) (\<lambda>w. Inr (pause 0 (lit 1030) w)))
   = Inr (Some (lit 1050 - max (lit 50) 0), [(''x'', lit 0)], [StartCalled 0 [(''x'', lit 0)] None])
   \<and> map_sum id (\<lambda>w. (timestamp (tweens w 0), currentState (tweens w 0), trace w))
       (andThen (started 0 (lit 1000) initialWorld)
          (\<lambda>w. seek 0 (lit 1050) (lit 50) (pause 0 (lit 1030) w)))
     = Inr (Some (lit 1000), [(''x'', lit 5)],
            [StartCalled 0 [(''x'', lit 0)] None, StepCalled 0 [(''x'', lit 5)] None (lit 50)])
   \<and> map_sum id (\<lambda>w. timestamp (tweens w 0)) (started 0 0 initialWorld) = Inr (Some 0)
   \<and> andThen (started 0 0 initialWorld) (seek 0 (lit 50) 0) = started 0 0 initialWorld"
  by (simp add: scenario_defs lit_eval)

end
